theory Spec2Isabelle
  imports Main "HOL-Library.Word"
begin

unbundle bit_operations_syntax

section \<open>Data model\<close>

text \<open>
  A Node.js \<open>Buffer\<close> is a sequence of bytes; a JavaScript string is a sequence of
  UTF-16 code units (\<open>length\<close>, indexing, \<open>charCodeAt\<close> and the regular expressions
  of the source, which carry no \<open>u\<close> flag, all work on code units). Command names and
  encoding labels are plain ASCII identifiers and are kept as HOL strings.
\<close>

type_synonym byte = "8 word"
type_synonym jschar = "16 word"
type_synonym ustring = "jschar list"

text \<open>
  An item of the parse result (\<open>lib/parser.js\<close>, \<open>lib/commands.js\<close>). A command item
  is \<open>{type: 'command', command, value?, width?, height?, description}\<close>, a text item is
  \<open>{type: 'text', data, text, bytes, encoding, description}\<close>. A field that is absent
  and a field that holds \<open>undefined\<close> are both \<open>None\<close>: the source only ever tests
  \<open>value !== undefined\<close>, \<open>value || d\<close> and \<open>value > 0\<close>, which do not tell
  them apart.
\<close>

datatype token =
  CommandItem (item_command: string) (item_value: "byte option")
    (item_width: "nat option") (item_height: "nat option") (item_description: ustring)
| TextItem (item_data: ustring) (item_text: ustring) (item_bytes: "byte list")
    (item_encoding: string) (item_description: ustring)

text \<open>
  A command definition of the \<open>COMMANDS\<close> table: signature bytes, name, description and
  the optional \<open>parse\<close> function, which receives the buffer and the match index.
\<close>

record commandDef =
  bytes :: "byte list"
  name :: string
  description :: ustring
  parse :: "(byte list \<Rightarrow> nat \<Rightarrow> token) option"

text \<open>\<open>data[i]\<close> on a buffer: \<open>undefined\<close> outside the buffer.\<close>

definition at :: "byte list \<Rightarrow> nat \<Rightarrow> byte option" where
  "at data i = (if i < length data then Some (data ! i) else None)"

section \<open>String helpers of the JavaScript runtime\<close>

text \<open>ASCII text as code units.\<close>

definition str :: "string \<Rightarrow> ustring" where
  "str s = map (\<lambda>c. of_nat (of_char c)) s"

text \<open>\<open>String(n)\<close> for a non-negative integer: its decimal digits.\<close>

fun decimal :: "nat \<Rightarrow> ustring" where
  "decimal n =
     (if n < 10 then [of_nat (48 + n)]
      else decimal (n div 10) @ [of_nat (48 + n mod 10)])"

declare decimal.simps [simp del]

text \<open>A number or \<open>undefined\<close> inside a template literal.\<close>

definition show_value :: "byte option \<Rightarrow> ustring" where
  "show_value v = (case v of None \<Rightarrow> str ''undefined'' | Some b \<Rightarrow> decimal (unat b))"

text \<open>Truthiness of a byte or \<open>undefined\<close>: defined and not zero.\<close>

definition truthy :: "byte option \<Rightarrow> bool" where
  "truthy v = (case v of None \<Rightarrow> False | Some b \<Rightarrow> b \<noteq> 0)"

section \<open>The command table (lib/commands.js)\<close>

text \<open>
  The descriptions are Chinese text; they are given by their code units, with the
  meaning in English beside each.
\<close>

definition d_initialize :: ustring where \<comment> \<open>"initialise the printer"\<close>
  "d_initialize = [0x521D, 0x59CB, 0x5316, 0x6253, 0x5370, 0x673A]"

definition d_align :: ustring where \<comment> \<open>"set the alignment"\<close>
  "d_align = [0x8BBE, 0x7F6E, 0x5BF9, 0x9F50, 0x65B9, 0x5F0F]"

definition d_print_and_feed :: ustring where \<comment> \<open>"print and feed paper"\<close>
  "d_print_and_feed = [0x6253, 0x5370, 0x5E76, 0x8FDB, 0x7EB8]"

definition d_cut_paper :: ustring where \<comment> \<open>"paper cut command"\<close>
  "d_cut_paper = [0x5207, 0x7EB8, 0x547D, 0x4EE4]"

definition d_font_size :: ustring where \<comment> \<open>"set the font size"\<close>
  "d_font_size = [0x8BBE, 0x7F6E, 0x5B57, 0x4F53, 0x5927, 0x5C0F]"

definition d_bold :: ustring where \<comment> \<open>"set bold"\<close>
  "d_bold = [0x8BBE, 0x7F6E, 0x52A0, 0x7C97]"

definition d_underline :: ustring where \<comment> \<open>"set underline"\<close>
  "d_underline = [0x8BBE, 0x7F6E, 0x4E0B, 0x5212, 0x7EBF]"

definition d_line_spacing :: ustring where \<comment> \<open>"set the line spacing"\<close>
  "d_line_spacing = [0x8BBE, 0x7F6E, 0x884C, 0x95F4, 0x8DDD]"

definition d_char_spacing :: ustring where \<comment> \<open>"set the character spacing"\<close>
  "d_char_spacing = [0x8BBE, 0x7F6E, 0x5B57, 0x7B26, 0x95F4, 0x8DDD]"

definition d_bold_mode :: ustring where \<comment> \<open>"bold mode control"\<close>
  "d_bold_mode = [0x52A0, 0x7C97, 0x6A21, 0x5F0F, 0x63A7, 0x5236]"

definition d_unknown :: ustring where \<comment> \<open>"unknown"\<close>
  "d_unknown = [0x672A, 0x77E5]"

text \<open>\<open>alignments[value] || 'unknown'\<close> with \<open>{0: 'left', 1: 'centre', 2: 'right'}\<close>.\<close>

definition alignments :: "byte option \<Rightarrow> ustring" where
  "alignments v =
     (if v = Some 0 then [0x5DE6, 0x5BF9, 0x9F50]
      else if v = Some 1 then [0x5C45, 0x4E2D]
      else if v = Some 2 then [0x53F3, 0x5BF9, 0x9F50]
      else d_unknown)"

text \<open>\<open>modes[mode] || 'unknown mode'\<close> with \<open>{0: 'full cut', 1: 'partial cut'}\<close>.\<close>

definition cut_modes :: "byte option \<Rightarrow> ustring" where
  "cut_modes v =
     (if v = Some 0 then [0x5168, 0x5207]
      else if v = Some 1 then [0x534A, 0x5207]
      else d_unknown @ [0x6A21, 0x5F0F])"

text \<open>\<open>modes[mode] || 'unknown'\<close> with \<open>{0: 'off', 1: '1 dot thick', 2: '2 dots thick'}\<close>.\<close>

definition underline_modes :: "byte option \<Rightarrow> ustring" where
  "underline_modes v =
     (if v = Some 0 then [0x5173, 0x95ED]
      else if v = Some 1 then [0x31, 0x70B9, 0x7C97]
      else if v = Some 2 then [0x32, 0x70B9, 0x7C97]
      else d_unknown)"

definition parse_INITIALIZE :: "byte list \<Rightarrow> nat \<Rightarrow> token" where
  "parse_INITIALIZE data index = CommandItem ''INITIALIZE'' None None None d_initialize"

definition parse_ALIGN :: "byte list \<Rightarrow> nat \<Rightarrow> token" where
  "parse_ALIGN data index =
     (let v = at data (index + 2)
      in CommandItem ''ALIGN'' v None None (d_align @ str '': '' @ alignments v))"

definition parse_PRINT_AND_FEED :: "byte list \<Rightarrow> nat \<Rightarrow> token" where
  "parse_PRINT_AND_FEED data index =
     (let lines = at data (index + 2)
      in CommandItem ''PRINT_AND_FEED'' lines None None
           (d_print_and_feed @ str '' '' @ show_value lines @ str '' '' @ [0x884C]))"

definition parse_CUT_PAPER :: "byte list \<Rightarrow> nat \<Rightarrow> token" where
  "parse_CUT_PAPER data index =
     (let mode = at data (index + 2)
      in CommandItem ''CUT_PAPER'' mode None None
           ([0x5207, 0x7EB8] @ str '': '' @ cut_modes mode))"

text \<open>
  \<open>(size & 0xf0) >> 4\<close> and \<open>size & 0x0f\<close>; the bit operators turn \<open>undefined\<close>
  into 0.
\<close>

definition parse_FONT_SIZE :: "byte list \<Rightarrow> nat \<Rightarrow> token" where
  "parse_FONT_SIZE data index =
     (let size = at data (index + 2);
          s = (case size of None \<Rightarrow> 0 | Some b \<Rightarrow> b);
          w = unat (drop_bit 4 (s AND 0xf0));
          h = unat (s AND 0x0f)
      in CommandItem ''FONT_SIZE'' size (Some (w + 1)) (Some (h + 1))
           (d_font_size @ str '': '' @ [0x5BBD, 0x5EA6] @ decimal (w + 1) @ str ''x ''
              @ [0x9AD8, 0x5EA6] @ decimal (h + 1) @ str ''x''))"

definition parse_BOLD :: "byte list \<Rightarrow> nat \<Rightarrow> token" where
  "parse_BOLD data index =
     (let enable = at data (index + 2)
      in CommandItem ''BOLD'' enable None None
           (if truthy enable then [0x5F00, 0x542F, 0x52A0, 0x7C97]
            else [0x5173, 0x95ED, 0x52A0, 0x7C97]))"

definition parse_UNDERLINE :: "byte list \<Rightarrow> nat \<Rightarrow> token" where
  "parse_UNDERLINE data index =
     (let mode = at data (index + 2)
      in CommandItem ''UNDERLINE'' mode None None
           ([0x4E0B, 0x5212, 0x7EBF] @ str '': '' @ underline_modes mode))"

definition parse_LINE_SPACING :: "byte list \<Rightarrow> nat \<Rightarrow> token" where
  "parse_LINE_SPACING data index =
     (let spacing = at data (index + 2)
      in CommandItem ''LINE_SPACING'' spacing None None
           (d_line_spacing @ str '': '' @ show_value spacing @ str '' '' @ [0x70B9]))"

definition parse_CHAR_SPACING :: "byte list \<Rightarrow> nat \<Rightarrow> token" where
  "parse_CHAR_SPACING data index =
     (let spacing = at data (index + 2)
      in CommandItem ''CHAR_SPACING'' spacing None None
           (d_char_spacing @ str '': '' @ show_value spacing @ str '' '' @ [0x70B9]))"

definition parse_BOLD_MODE :: "byte list \<Rightarrow> nat \<Rightarrow> token" where
  "parse_BOLD_MODE data index =
     (let enable = at data (index + 2)
      in CommandItem ''BOLD_MODE'' enable None None
           (if truthy enable then [0x5F00, 0x542F, 0x52A0, 0x7C97, 0x6A21, 0x5F0F]
            else [0x5173, 0x95ED, 0x52A0, 0x7C97, 0x6A21, 0x5F0F]))"

definition INITIALIZE :: commandDef where
  "INITIALIZE = \<lparr>bytes = [0x1b, 0x40], name = ''INITIALIZE'',
     description = d_initialize, parse = Some parse_INITIALIZE\<rparr>"

definition ALIGN :: commandDef where
  "ALIGN = \<lparr>bytes = [0x1b, 0x61], name = ''ALIGN'',
     description = d_align, parse = Some parse_ALIGN\<rparr>"

definition PRINT_AND_FEED :: commandDef where
  "PRINT_AND_FEED = \<lparr>bytes = [0x1b, 0x64], name = ''PRINT_AND_FEED'',
     description = d_print_and_feed, parse = Some parse_PRINT_AND_FEED\<rparr>"

definition CUT_PAPER :: commandDef where
  "CUT_PAPER = \<lparr>bytes = [0x1d, 0x56], name = ''CUT_PAPER'',
     description = d_cut_paper, parse = Some parse_CUT_PAPER\<rparr>"

definition FONT_SIZE :: commandDef where
  "FONT_SIZE = \<lparr>bytes = [0x1d, 0x21], name = ''FONT_SIZE'',
     description = d_font_size, parse = Some parse_FONT_SIZE\<rparr>"

definition BOLD :: commandDef where
  "BOLD = \<lparr>bytes = [0x1b, 0x45], name = ''BOLD'',
     description = d_bold, parse = Some parse_BOLD\<rparr>"

definition UNDERLINE :: commandDef where
  "UNDERLINE = \<lparr>bytes = [0x1b, 0x2d], name = ''UNDERLINE'',
     description = d_underline, parse = Some parse_UNDERLINE\<rparr>"

definition LINE_SPACING :: commandDef where
  "LINE_SPACING = \<lparr>bytes = [0x1b, 0x33], name = ''LINE_SPACING'',
     description = d_line_spacing, parse = Some parse_LINE_SPACING\<rparr>"

definition CHAR_SPACING :: commandDef where
  "CHAR_SPACING = \<lparr>bytes = [0x1b, 0x20], name = ''CHAR_SPACING'',
     description = d_char_spacing, parse = Some parse_CHAR_SPACING\<rparr>"

definition BOLD_MODE :: commandDef where
  "BOLD_MODE = \<lparr>bytes = [0x1d, 0x42], name = ''BOLD_MODE'',
     description = d_bold_mode, parse = Some parse_BOLD_MODE\<rparr>"

text \<open>\<open>Object.entries(COMMANDS)\<close>: the definitions in the order they are written.\<close>

definition COMMANDS :: "commandDef list" where
  "COMMANDS = [INITIALIZE, ALIGN, PRINT_AND_FEED, CUT_PAPER, FONT_SIZE, BOLD, UNDERLINE,
     LINE_SPACING, CHAR_SPACING, BOLD_MODE]"

text \<open>
  The inner loop of \<open>findCommand\<close>: the signature bytes still to compare against the
  buffer from position \<open>pos\<close> on; the first difference stops the loop with no match.
\<close>

fun bytesMatch :: "byte list \<Rightarrow> nat \<Rightarrow> byte list \<Rightarrow> bool" where
  "bytesMatch data pos [] = True"
| "bytesMatch data pos (b # bs) =
     (if at data pos \<noteq> Some b then False else bytesMatch data (pos + 1) bs)"

text \<open>
  The outer loop of \<open>findCommand\<close> over a registry: a definition whose signature does
  not fit in the rest of the buffer is passed over, the first one that matches is
  returned, and \<open>null\<close> is \<open>None\<close>.
\<close>

fun findCommandIn :: "commandDef list \<Rightarrow> byte list \<Rightarrow> nat \<Rightarrow> commandDef option" where
  "findCommandIn [] data index = None"
| "findCommandIn (command # rest) data index =
     (if index + length (bytes command) > length data then findCommandIn rest data index
      else if bytesMatch data index (bytes command) then Some command
      else findCommandIn rest data index)"

definition findCommand :: "byte list \<Rightarrow> nat \<Rightarrow> commandDef option" where
  "findCommand data index = findCommandIn COMMANDS data index"

definition isPrintableChar :: "byte \<Rightarrow> bool" where
  "isPrintableChar byte = ((byte \<ge> 32 \<and> byte \<le> 126) \<or> byte \<ge> 128)"

definition isNewLine :: "byte \<Rightarrow> bool" where
  "isNewLine byte = (byte = 0x0a \<or> byte = 0x0d)"

section \<open>The tokenizer (lib/parser.js)\<close>

text \<open>
  \<open>iconv.decode\<close> belongs to the package iconv-lite, which is not part of the
  repository: the decoder is a parameter of the model. It receives the encoding label and
  the bytes; \<open>None\<close> stands for a thrown exception.
\<close>

type_synonym decoder = "string \<Rightarrow> byte list \<Rightarrow> ustring option"

text \<open>
  \<open>buf.toString('ascii', start, end)\<close> of the Node.js runtime: the bytes from \<open>start\<close>
  up to \<open>end\<close>, each with its highest bit cleared.
\<close>

definition toString_ascii :: "byte list \<Rightarrow> nat \<Rightarrow> nat \<Rightarrow> ustring" where
  "toString_ascii buf start end' =
     map (\<lambda>b. ucast (b AND 0x7f)) (take (end' - start) (drop start buf))"

definition tryAlternativeEncoding :: "decoder \<Rightarrow> byte list \<Rightarrow> string \<Rightarrow> ustring" where
  "tryAlternativeEncoding dec textBytes originalEncoding =
     (let alternativeEncoding = (if originalEncoding = ''gbk'' then ''utf8'' else ''gbk'')
      in case dec alternativeEncoding textBytes of
           Some s \<Rightarrow> s
         | None \<Rightarrow>
             (let maxLength = min (length textBytes) 50
              in toString_ascii textBytes 0 maxLength))"

definition decodeText :: "decoder \<Rightarrow> byte list \<Rightarrow> string \<Rightarrow> ustring" where
  "decodeText dec textBytes enc =
     (case dec enc textBytes of
        Some s \<Rightarrow> s
      | None \<Rightarrow> tryAlternativeEncoding dec textBytes enc)"

definition createTextItem :: "ustring \<Rightarrow> byte list \<Rightarrow> string \<Rightarrow> ustring \<Rightarrow> token" where
  "createTextItem txt' bs enc descr = TextItem txt' txt' bs enc descr"

text \<open>The \<open>{item, nextIndex}\<close> object of the parse functions; \<open>item: null\<close> is \<open>None\<close>.\<close>

record parseResult =
  item :: "token option"
  nextIndex :: nat

text \<open>\<open>parsedCommand.value\<close>: \<open>undefined\<close> on an object without that field.\<close>

definition value_of :: "token \<Rightarrow> byte option" where
  "value_of t = (case t of CommandItem c v w h d \<Rightarrow> v | TextItem a b c d e \<Rightarrow> None)"

definition parseCommand :: "byte list \<Rightarrow> nat \<Rightarrow> commandDef \<Rightarrow> parseResult" where
  "parseCommand buffer index cmd =
     (let parsedCommand =
            (case parse cmd of
               Some f \<Rightarrow> f buffer index
             | None \<Rightarrow> CommandItem (name cmd) None None None (description cmd));
          nextIndex0 = index + length (bytes cmd);
          nextIndex1 =
            (if parse cmd \<noteq> None \<and> value_of parsedCommand \<noteq> None
             then nextIndex0 + 1 else nextIndex0)
      in \<lparr>item = Some parsedCommand, nextIndex = nextIndex1\<rparr>)"

text \<open>
  The code of \<open>parseTextData\<close> after its loop: a non-empty run is decoded into a text
  item whose description is the Chinese for "text", a colon and the text in quotes.
\<close>

definition parseTextData_end :: "decoder \<Rightarrow> string \<Rightarrow> nat \<Rightarrow> byte list \<Rightarrow> parseResult" where
  "parseTextData_end dec enc index textBytes =
     (if length textBytes > 0 then
        (let decodedText = decodeText dec textBytes enc
         in \<lparr>item = Some (createTextItem decodedText textBytes enc
                 ([0x6587, 0x672C] @ str '': '' @ [0x22] @ decodedText @ [0x22])),
             nextIndex = index\<rparr>)
      else \<lparr>item = None, nextIndex = index\<rparr>)"

text \<open>
  The loop of \<open>parseTextData\<close>, with the cursor and the bytes collected so far. The
  description of the newline item is the Chinese for "line break".
\<close>

function parseTextData_loop ::
  "decoder \<Rightarrow> byte list \<Rightarrow> string \<Rightarrow> nat \<Rightarrow> byte list \<Rightarrow> parseResult" where
  "parseTextData_loop dec buffer enc index textBytes =
     (if index < length buffer then
        (let byte = buffer ! index in
         if findCommand buffer index \<noteq> None then parseTextData_end dec enc index textBytes
         else if isNewLine byte then
           (if length textBytes > 0 then parseTextData_end dec enc index textBytes
            else \<lparr>item = Some (createTextItem [0x0A] [byte] enc [0x6362, 0x884C, 0x7B26]),
                  nextIndex = index + 1\<rparr>)
         else if isPrintableChar byte then
           parseTextData_loop dec buffer enc (index + 1) (textBytes @ [byte])
         else if length textBytes > 0 then parseTextData_end dec enc index textBytes
         else parseTextData_loop dec buffer enc (index + 1) textBytes)
      else parseTextData_end dec enc index textBytes)"
  by pat_completeness auto
termination
  by (relation "measure (\<lambda>(dec, buffer, enc, index, textBytes). length buffer - index)") auto

declare parseTextData_loop.simps [simp del]

definition parseTextData :: "decoder \<Rightarrow> byte list \<Rightarrow> nat \<Rightarrow> string \<Rightarrow> parseResult" where
  "parseTextData dec buffer startIndex enc = parseTextData_loop dec buffer enc startIndex []"

definition parseNextItem :: "decoder \<Rightarrow> byte list \<Rightarrow> nat \<Rightarrow> string \<Rightarrow> parseResult" where
  "parseNextItem dec buffer index enc =
     (case findCommand buffer index of
        Some cmd \<Rightarrow> parseCommand buffer index cmd
      | None \<Rightarrow> parseTextData dec buffer index enc)"

subsection \<open>Every step of the tokenizer moves the cursor forward\<close>

lemma findCommandIn_Some:
  "findCommandIn cmds data i = Some c \<Longrightarrow>
     c \<in> set cmds \<and> i + length (bytes c) \<le> length data \<and> bytesMatch data i (bytes c)"
  by (induction cmds) (auto split: if_splits)

lemma COMMANDS_bytes_length: "c \<in> set COMMANDS \<Longrightarrow> length (bytes c) = 2"
  by (auto simp: COMMANDS_def INITIALIZE_def ALIGN_def PRINT_AND_FEED_def CUT_PAPER_def
      FONT_SIZE_def BOLD_def UNDERLINE_def LINE_SPACING_def CHAR_SPACING_def BOLD_MODE_def)

lemma findCommand_Some:
  "findCommand data i = Some c \<Longrightarrow>
     c \<in> set COMMANDS \<and> length (bytes c) = 2 \<and> i + 2 \<le> length data"
  using findCommandIn_Some [of COMMANDS data i c] COMMANDS_bytes_length [of c]
  by (auto simp: findCommand_def)

lemma parseCommand_nextIndex_ge:
  "index + length (bytes cmd) \<le> nextIndex (parseCommand buffer index cmd)"
  by (simp add: parseCommand_def Let_def)

lemma parseTextData_end_nextIndex [simp]:
  "nextIndex (parseTextData_end dec enc index tb) = index"
  by (simp add: parseTextData_end_def Let_def)

lemma parseTextData_loop_mono:
  "index \<le> nextIndex (parseTextData_loop dec buffer enc index tb)"
proof (induction dec buffer enc index tb rule: parseTextData_loop.induct)
  case (1 dec buffer enc index textBytes)
  show ?case
  proof (cases "index < length buffer")
    case False
    then show ?thesis by (subst parseTextData_loop.simps) simp
  next
    case inb: True
    show ?thesis
    proof (cases "findCommand buffer index \<noteq> None \<or> isNewLine (buffer ! index)
        \<or> (\<not> isPrintableChar (buffer ! index) \<and> length textBytes > 0)")
      case True
      then show ?thesis using inb
        by (subst parseTextData_loop.simps) (auto simp: Let_def)
    next
      case stop: False
      show ?thesis
      proof (cases "isPrintableChar (buffer ! index)")
        case True
        with 1(1) [OF inb refl] stop inb
        have "index + 1 \<le> nextIndex (parseTextData_loop dec buffer enc (index + 1)
            (textBytes @ [buffer ! index]))" by simp
        then show ?thesis using True stop inb
          by (subst parseTextData_loop.simps) (simp add: Let_def)
      next
        case False
        with 1(2) [OF inb refl] stop inb
        have "index + 1 \<le> nextIndex (parseTextData_loop dec buffer enc (index + 1) textBytes)"
          by simp
        then show ?thesis using False stop inb
          by (subst parseTextData_loop.simps) (simp add: Let_def)
      qed
    qed
  qed
qed

lemma parseTextData_progress:
  assumes "index < length buffer" "findCommand buffer index = None"
  shows "index < nextIndex (parseTextData dec buffer index enc)"
proof -
  have a: "index + 1 \<le> nextIndex (parseTextData_loop dec buffer enc (index + 1) tb)" for tb
    by (rule parseTextData_loop_mono)
  show ?thesis
    unfolding parseTextData_def
    using assms a [of "[]"] a [of "[buffer ! index]"]
    by (subst parseTextData_loop.simps) (simp add: Let_def)
qed

lemma parseNextItem_progress:
  "index < nextIndex (parseNextItem dec buffer index enc)" if "index < length buffer"
proof (cases "findCommand buffer index")
  case None
  then show ?thesis using that parseTextData_progress [of index buffer dec enc]
    by (simp add: parseNextItem_def)
next
  case (Some c)
  then show ?thesis
    using parseCommand_nextIndex_ge [of index c buffer] findCommand_Some [OF Some]
    by (simp add: parseNextItem_def)
qed


subsection \<open>The main loop\<close>

text \<open>
  The \<open>while\<close> loop of \<open>parseBuffer\<close>, with the cursor and the result array. It
  terminates because every step moves the cursor forward.
\<close>

function parseBuffer_loop ::
  "decoder \<Rightarrow> byte list \<Rightarrow> string \<Rightarrow> nat \<Rightarrow> token list \<Rightarrow> token list" where
  "parseBuffer_loop dec buffer enc index result =
     (if index < length buffer then
        (let parseResult = parseNextItem dec buffer index enc
         in parseBuffer_loop dec buffer enc (nextIndex parseResult)
              (case item parseResult of Some t \<Rightarrow> result @ [t] | None \<Rightarrow> result))
      else result)"
  by pat_completeness auto
termination
proof (relation "measure (\<lambda>(dec, buffer, enc, index, result). length buffer - index)")
  show "wf (measure (\<lambda>(dec, buffer, enc, index, result). length buffer - index))"
    by simp
next
  fix dec :: decoder and buffer enc index and result :: "token list" and x
  assume "index < length buffer" and "x = parseNextItem dec buffer index enc"
  then show "((dec, buffer, enc, nextIndex x, case item x of None \<Rightarrow> result
         | Some t \<Rightarrow> result @ [t]), dec, buffer, enc, index, result)
       \<in> measure (\<lambda>(dec, buffer, enc, index, result). length buffer - index)"
    using parseNextItem_progress [of index buffer dec enc] by simp
qed

declare parseBuffer_loop.simps [simp del]

text \<open>\<open>Buffer.isBuffer\<close> holds by the type of the argument.\<close>

definition parseBuffer :: "decoder \<Rightarrow> byte list \<Rightarrow> string \<Rightarrow> token list" where
  "parseBuffer dec buffer enc =
     (if length buffer = 0 then [] else parseBuffer_loop dec buffer enc 0 [])"

text \<open>
  The same loop, recording each iteration: the cursor before the step and the result
  of \<open>parseNextItem\<close> there. It is the trace of \<open>parseBuffer\<close>, used to say which
  bytes each item comes from.
\<close>

function parseSteps :: "decoder \<Rightarrow> byte list \<Rightarrow> string \<Rightarrow> nat \<Rightarrow> (nat \<times> parseResult) list" where
  "parseSteps dec buffer enc index =
     (if index < length buffer then
        (let parseResult = parseNextItem dec buffer index enc
         in (index, parseResult) # parseSteps dec buffer enc (nextIndex parseResult))
      else [])"
  by pat_completeness auto
termination
proof (relation "measure (\<lambda>(dec, buffer, enc, index). length buffer - index)")
  show "wf (measure (\<lambda>(dec, buffer, enc, index). length buffer - index))"
    by simp
next
  fix dec :: decoder and buffer enc index x
  assume "index < length buffer" and "x = parseNextItem dec buffer index enc"
  then show "((dec, buffer, enc, nextIndex x), dec, buffer, enc, index)
       \<in> measure (\<lambda>(dec, buffer, enc, index). length buffer - index)"
    using parseNextItem_progress [of index buffer dec enc] by simp
qed

declare parseSteps.simps [simp del]

section \<open>Hexadecimal input (lib/parser.js)\<close>

datatype error =
  EmptyHexString  \<comment> \<open>"the hexadecimal string contains no valid hexadecimal characters"\<close>
| OddHexLength  \<comment> \<open>"the length of the hexadecimal string must be even"\<close>
| RangeError  \<comment> \<open>\<open>String.prototype.repeat\<close> with a negative count\<close>

text \<open>The class \<open>[\s\n\r\t]\<close> of the cleaning regular expression, on code units.\<close>

definition isWhitespace :: "jschar \<Rightarrow> bool" where
  "isWhitespace c =
     (c = 0x09 \<or> c = 0x0A \<or> c = 0x0B \<or> c = 0x0C \<or> c = 0x0D \<or> c = 0x20 \<or> c = 0xA0
      \<or> c = 0x1680 \<or> (0x2000 \<le> c \<and> c \<le> 0x200A) \<or> c = 0x2028 \<or> c = 0x2029
      \<or> c = 0x202F \<or> c = 0x205F \<or> c = 0x3000 \<or> c = 0xFEFF)"

text \<open>
  The digit table of the runtime's hexadecimal decoder, which is indexed by a byte: the
  value of a hexadecimal digit, and nothing for any other byte.
\<close>

definition unhex :: "byte \<Rightarrow> byte option" where
  "unhex x =
     (if 0x30 \<le> x \<and> x \<le> 0x39 then Some (x - 0x30)
      else if 0x41 \<le> x \<and> x \<le> 0x46 then Some (x - 0x41 + 10)
      else if 0x61 \<le> x \<and> x \<le> 0x66 then Some (x - 0x61 + 10)
      else None)"

text \<open>
  \<open>Buffer.from(s, 'hex')\<close> of the Node.js runtime: one byte for each pair of
  hexadecimal digits; decoding stops without an error at the first pair that is not two
  hexadecimal digits, and a single trailing character is dropped. Of each code unit only
  the low byte is looked up in the digit table.
\<close>

fun bufferFromHex :: "ustring \<Rightarrow> byte list" where
  "bufferFromHex (a # b # rest) =
     (case (unhex (ucast a), unhex (ucast b)) of
        (Some x, Some y) \<Rightarrow> (x * 16 + y) # bufferFromHex rest
      | _ \<Rightarrow> [])"
| "bufferFromHex _ = []"

text \<open>
  The argument is a string by its type, so the \<open>typeof\<close> check passes. Neither
  \<open>Buffer.from\<close> nor \<open>parseBuffer\<close> throws, so the \<open>catch\<close> branch is never taken.
\<close>

definition parseHexString :: "decoder \<Rightarrow> ustring \<Rightarrow> string \<Rightarrow> error + token list" where
  "parseHexString dec hexString enc =
     (let cleanHex = filter (\<lambda>c. \<not> isWhitespace c) hexString in
      if length cleanHex = 0 then Inl EmptyHexString
      else if length cleanHex mod 2 \<noteq> 0 then Inl OddHexLength
      else Inr (parseBuffer dec (bufferFromHex cleanHex) enc))"

section \<open>The formatter (class TextFormatter of lib/parser.js)\<close>

definition ALIGN_LEFT :: byte where "ALIGN_LEFT = 0"
definition ALIGN_CENTER :: byte where "ALIGN_CENTER = 1"
definition ALIGN_RIGHT :: byte where "ALIGN_RIGHT = 2"

definition DEFAULT_LINE_WIDTH :: int where "DEFAULT_LINE_WIDTH = 48"

text \<open>The class \<open>[\x00-\x08\x0b\x0c\x0e-\x1f\x7f-\x9f]\<close>.\<close>

definition isControlChar :: "jschar \<Rightarrow> bool" where
  "isControlChar c =
     (c \<le> 0x08 \<or> c = 0x0b \<or> c = 0x0c \<or> (0x0e \<le> c \<and> c \<le> 0x1f) \<or> (0x7f \<le> c \<and> c \<le> 0x9f))"

text \<open>The class \<open>[\u4e00-\u9fff\uff00-\uffef]\<close>.\<close>

definition isCJK :: "jschar \<Rightarrow> bool" where
  "isCJK c = ((0x4e00 \<le> c \<and> c \<le> 0x9fff) \<or> (0xff00 \<le> c \<and> c \<le> 0xffef))"

record formatter =
  lines :: "ustring list"
  currentLine :: ustring
  currentAlign :: byte
  isBold :: bool
  hasUnderline :: bool
  lineWidth :: int

text \<open>
  The constructor; the argument is \<open>options.lineWidth\<close>, an integer or absent.
  \<open>options.lineWidth || DEFAULT_LINE_WIDTH\<close> replaces 0 as well.
\<close>

definition TextFormatter :: "int option \<Rightarrow> formatter" where
  "TextFormatter optLineWidth =
     \<lparr>lines = [], currentLine = [], currentAlign = ALIGN_LEFT, isBold = False,
      hasUnderline = False,
      lineWidth = (case optLineWidth of
                     None \<Rightarrow> DEFAULT_LINE_WIDTH
                   | Some w \<Rightarrow> if w = 0 then DEFAULT_LINE_WIDTH else w)\<rparr>"

text \<open>The loop of \<open>getTextWidth\<close>: the characters still to visit and the width so far.\<close>

fun getTextWidth_loop :: "ustring \<Rightarrow> nat \<Rightarrow> nat" where
  "getTextWidth_loop [] w = w"
| "getTextWidth_loop (c # cs) w = getTextWidth_loop cs (w + (if isCJK c then 2 else 1))"

definition getTextWidth :: "ustring \<Rightarrow> nat" where
  "getTextWidth txt' = getTextWidth_loop txt' 0"

text \<open>\<open>' '.repeat(n)\<close> for a count that is not negative.\<close>

definition spaces :: "nat \<Rightarrow> ustring" where
  "spaces n = replicate n 0x20"

definition startsWithSpace :: "ustring \<Rightarrow> bool" where
  "startsWithSpace s = (case s of [] \<Rightarrow> False | c # cs \<Rightarrow> c = 0x20)"

definition applyAlignment :: "formatter \<Rightarrow> ustring \<Rightarrow> ustring \<Rightarrow> ustring" where
  "applyAlignment st originalText styledText =
     (if startsWithSpace originalText then styledText
      else
        (let textWidth = getTextWidth styledText in
         if currentAlign st = ALIGN_CENTER then
           (let centerPadding = max 0 ((lineWidth st - int textWidth) div 2)
            in spaces (nat centerPadding) @ styledText)
         else if currentAlign st = ALIGN_RIGHT then
           (let rightPadding = max 0 (lineWidth st - int textWidth)
            in spaces (nat rightPadding) @ styledText)
         else styledText))"

text \<open>Bold wraps the text in the brackets U+3010 and U+3011, underline in underscores.\<close>

definition applyTextStyles :: "formatter \<Rightarrow> ustring \<Rightarrow> ustring" where
  "applyTextStyles st txt' =
     (let styledText = (if isBold st then [0x3010] @ txt' @ [0x3011] else txt')
      in if hasUnderline st then [0x5F] @ styledText @ [0x5F] else styledText)"

definition formatLine :: "formatter \<Rightarrow> ustring \<Rightarrow> ustring" where
  "formatLine st txt' = applyAlignment st txt' (applyTextStyles st txt')"

definition addFormattedLine :: "formatter \<Rightarrow> ustring \<Rightarrow> formatter" where
  "addFormattedLine st txt' = st\<lparr>lines := lines st @ [formatLine st txt']\<rparr>"

definition processTextItem :: "formatter \<Rightarrow> token \<Rightarrow> formatter" where
  "processTextItem st it =
     (let t = item_text it in
      if t = [] then st
      else if t = [0x0A] \<or> hd t = 0x0A then
        (if length (currentLine st) > 0
         then (addFormattedLine st (currentLine st))\<lparr>currentLine := []\<rparr>
         else st)
      else
        (let cleanText = filter (\<lambda>c. c \<noteq> 0x21) (filter (\<lambda>c. \<not> isControlChar c) t)
         in if length cleanText = 0 then st
            else st\<lparr>currentLine := currentLine st @ cleanText\<rparr>))"

text \<open>\<open>'-'.repeat(count)\<close>: a negative count raises \<open>RangeError\<close>.\<close>

definition repeat_dash :: "int \<Rightarrow> error + ustring" where
  "repeat_dash count = (if count < 0 then Inl RangeError else Inr (replicate (nat count) 0x2D))"

text \<open>The marker line: a space, U+3010, the Chinese for "paper cut here", U+3011, a space.\<close>

definition cutMarker :: ustring where
  "cutMarker = [0x20, 0x3010, 0x7EB8, 0x5F20, 0x5207, 0x5272, 0x5904, 0x3011, 0x20]"

definition processCutPaperCommand :: "formatter \<Rightarrow> error + formatter" where
  "processCutPaperCommand st =
     (let st1 = (if length (currentLine st) > 0
                 then (addFormattedLine st (currentLine st))\<lparr>currentLine := []\<rparr>
                 else st);
          st2 = st1\<lparr>lines := lines st1 @ replicate 6 []\<rparr>
      in case repeat_dash (lineWidth st2) of
           Inl e \<Rightarrow> Inl e
         | Inr rule \<Rightarrow> Inr (st2\<lparr>lines := lines st2 @ [rule] @ [cutMarker] @ [rule]\<rparr>))"

definition resetFormat :: "formatter \<Rightarrow> formatter" where
  "resetFormat st =
     st\<lparr>currentLine := [], currentAlign := ALIGN_LEFT, isBold := False, hasUnderline := False\<rparr>"

definition processInitializeCommand :: "formatter \<Rightarrow> formatter" where
  "processInitializeCommand st =
     resetFormat (if length (currentLine st) > 0 then addFormattedLine st (currentLine st)
                  else st)"

text \<open>\<open>s.includes(pat)\<close>: \<open>pat\<close> occurs in \<open>s\<close> as a contiguous run.\<close>

fun str_includes :: "ustring \<Rightarrow> ustring \<Rightarrow> bool" where
  "str_includes [] pat = (pat = [])"
| "str_includes (c # cs) pat = (take (length pat) (c # cs) = pat \<or> str_includes cs pat)"

text \<open>\<open>value || d\<close> and \<open>value > 0\<close> on a byte or \<open>undefined\<close>.\<close>

definition value_or :: "byte option \<Rightarrow> byte \<Rightarrow> byte" where
  "value_or v d = (case v of None \<Rightarrow> d | Some b \<Rightarrow> if b = 0 then d else b)"

definition value_positive :: "byte option \<Rightarrow> bool" where
  "value_positive v = (case v of None \<Rightarrow> False | Some b \<Rightarrow> b > 0)"

definition processFeed :: "formatter \<Rightarrow> token \<Rightarrow> formatter" where
  "processFeed st it =
     (let st1 = (if length (currentLine st) > 0
                 then (addFormattedLine st (currentLine st))\<lparr>currentLine := []\<rparr>
                 else st);
          feedLines = value_or (value_of it) 1;
          st2 = (if feedLines > 1
                 then st1\<lparr>lines := lines st1 @ replicate (unat feedLines - 1) []\<rparr>
                 else st1)
      in if length (lines st2) > 0 \<and> str_includes (last (lines st2)) (str ''---'')
         then st2\<lparr>lines := lines st2 @ [[]]\<rparr>
         else st2)"

text \<open>
  The \<open>switch\<close> of \<open>processCommandItem\<close>; \<open>processFeed\<close> is the body of the cases
  \<open>PRINT_AND_FEED\<close> and \<open>LINE_FEED\<close>.
\<close>

definition processCommandItem :: "formatter \<Rightarrow> token \<Rightarrow> error + formatter" where
  "processCommandItem st it =
     (let c = item_command it in
      if c = ''ALIGN'' then Inr (st\<lparr>currentAlign := value_or (value_of it) ALIGN_LEFT\<rparr>)
      else if c = ''BOLD'' \<or> c = ''BOLD_MODE''
        then Inr (st\<lparr>isBold := value_positive (value_of it)\<rparr>)
      else if c = ''UNDERLINE'' then Inr (st\<lparr>hasUnderline := value_positive (value_of it)\<rparr>)
      else if c = ''PRINT_AND_FEED'' \<or> c = ''LINE_FEED'' then Inr (processFeed st it)
      else if c = ''CUT_PAPER'' then processCutPaperCommand st
      else if c = ''INITIALIZE'' then Inr (processInitializeCommand st)
      else if c = ''FONT_SIZE'' then Inr st
      else Inr st)"

definition processItem :: "formatter \<Rightarrow> token \<Rightarrow> error + formatter" where
  "processItem st it =
     (case it of
        TextItem a b c d e \<Rightarrow> Inr (processTextItem st it)
      | CommandItem a b c d e \<Rightarrow> processCommandItem st it)"

definition finalizeLine :: "formatter \<Rightarrow> formatter" where
  "finalizeLine st =
     (if length (currentLine st) > 0 then addFormattedLine st (currentLine st) else st)"

text \<open>\<open>lines.join('\n')\<close>.\<close>

fun join :: "ustring list \<Rightarrow> ustring" where
  "join [] = []"
| "join [l] = l"
| "join (l # ls) = l @ [0x0A] @ join ls"

text \<open>The \<open>for\<close> loop of \<open>format\<close>; an exception ends it.\<close>

fun processItems :: "formatter \<Rightarrow> token list \<Rightarrow> error + formatter" where
  "processItems st [] = Inr st"
| "processItems st (it # items) =
     (case processItem st it of
        Inl e \<Rightarrow> Inl e
      | Inr st' \<Rightarrow> processItems st' items)"

definition format :: "formatter \<Rightarrow> token list \<Rightarrow> error + ustring" where
  "format st items =
     (case processItems st items of
        Inl e \<Rightarrow> Inl e
      | Inr st' \<Rightarrow> Inr (join (lines (finalizeLine st'))))"

text \<open>The argument is an array by its type, so the \<open>Array.isArray\<close> check passes.\<close>

definition formatAsText :: "token list \<Rightarrow> int option \<Rightarrow> error + ustring" where
  "formatAsText items optLineWidth = format (TextFormatter optLineWidth) items"

section \<open>Notions used to state the properties\<close>

text \<open>
  What the specification calls a match: the signature fits in the buffer from the index
  on, and the bytes there are the signature's.
\<close>

definition matchesAt :: "byte list \<Rightarrow> nat \<Rightarrow> commandDef \<Rightarrow> bool" where
  "matchesAt data index c \<longleftrightarrow>
     index + length (bytes c) \<le> length data \<and>
     take (length (bytes c)) (drop index data) = bytes c"

text \<open>\<open>buffer.subarray(a, b)\<close>: the bytes from position \<open>a\<close> up to position \<open>b\<close>.\<close>

definition subarray :: "byte list \<Rightarrow> nat \<Rightarrow> nat \<Rightarrow> byte list" where
  "subarray buf a b = take (b - a) (drop a buf)"

text \<open>
  The three kinds of byte that the text loop meets at a position where no command matches:
  a byte it collects into the run, a line terminator, and an unprintable byte that it
  skips when the run is empty.
\<close>

definition textByteAt :: "byte list \<Rightarrow> nat \<Rightarrow> bool" where
  "textByteAt buffer p \<longleftrightarrow>
     p < length buffer \<and> findCommand buffer p = None \<and> \<not> isNewLine (buffer ! p)
     \<and> isPrintableChar (buffer ! p)"

definition newlineAt :: "byte list \<Rightarrow> nat \<Rightarrow> bool" where
  "newlineAt buffer p \<longleftrightarrow>
     p < length buffer \<and> findCommand buffer p = None \<and> isNewLine (buffer ! p)"

definition skippedAt :: "byte list \<Rightarrow> nat \<Rightarrow> bool" where
  "skippedAt buffer p \<longleftrightarrow>
     p < length buffer \<and> findCommand buffer p = None \<and> \<not> isNewLine (buffer ! p)
     \<and> \<not> isPrintableChar (buffer ! p)"

text \<open>
  What one step of the tokenizer, from cursor \<open>s\<close> to \<open>nextIndex\<close>, did with the
  bytes in between:
  \<^item> no item: every byte was skipped;
  \<^item> a command item: the bytes are the signature of a registered command of that name,
    followed by the parameter byte when the item has a value;
  \<^item> a text item: the item's bytes are the last bytes of the range, every byte before
    them was skipped, and they are either a run of collected bytes or one line
    terminator.
\<close>

definition accounted :: "byte list \<Rightarrow> nat \<Rightarrow> parseResult \<Rightarrow> bool" where
  "accounted buffer s r \<longleftrightarrow>
     nextIndex r \<le> length buffer \<and>
     (case item r of
        None \<Rightarrow> (\<forall>p. s \<le> p \<and> p < nextIndex r \<longrightarrow> skippedAt buffer p)
      | Some (CommandItem nm v w h d) \<Rightarrow>
          (\<exists>c \<in> set COMMANDS. nm = name c \<and>
             subarray buffer s (nextIndex r) = bytes c @ (case v of None \<Rightarrow> [] | Some b \<Rightarrow> [b]))
      | Some (TextItem dt tx bs e ds) \<Rightarrow>
          bs \<noteq> [] \<and> s + length bs \<le> nextIndex r \<and>
          subarray buffer (nextIndex r - length bs) (nextIndex r) = bs \<and>
          (\<forall>p. s \<le> p \<and> p < nextIndex r - length bs \<longrightarrow> skippedAt buffer p) \<and>
          ((\<forall>p. nextIndex r - length bs \<le> p \<and> p < nextIndex r \<longrightarrow> textByteAt buffer p)
           \<or> (length bs = 1 \<and> newlineAt buffer (nextIndex r - 1))))"

definition commandResult :: "parseResult \<Rightarrow> bool" where
  "commandResult r =
     (case item r of Some (CommandItem nm v w h d) \<Rightarrow> True | _ \<Rightarrow> False)"

text \<open>
  The steps of a trace follow each other without gap or overlap from \<open>a\<close> to \<open>b\<close>,
  and each one moves forward.
\<close>

fun contiguous :: "nat \<Rightarrow> nat \<Rightarrow> (nat \<times> parseResult) list \<Rightarrow> bool" where
  "contiguous a b [] = (a = b)"
| "contiguous a b ((s, r) # rest) = (s = a \<and> a < nextIndex r \<and> contiguous (nextIndex r) b rest)"

definition itemsOf :: "(nat \<times> parseResult) list \<Rightarrow> token list" where
  "itemsOf steps = List.map_filter (\<lambda>(s, r). item r) steps"

definition covers :: "nat \<Rightarrow> nat \<times> parseResult \<Rightarrow> bool" where
  "covers p sr = (fst sr \<le> p \<and> p < nextIndex (snd sr))"

text \<open>
  A decoder for the worked examples: every byte becomes the code unit of the same value
  (the decoding of ASCII bytes under both \<open>utf8\<close> and \<open>gbk\<close>).
\<close>

definition asciiDecoder :: decoder where
  "asciiDecoder e bs = Some (map ucast bs)"

definition commandName :: "token \<Rightarrow> string option" where
  "commandName t = (case t of CommandItem c v w h d \<Rightarrow> Some c | TextItem a b c d e \<Rightarrow> None)"



text \<open>
  The wording of the specification: a string is malformed when, after stripping
  whitespace, it has odd length or contains a character that is not a hexadecimal digit.
  The hexadecimal digits are the characters 0 to 9, A to F and a to f, \<open>digitValue\<close>
  is the number a digit stands for, and \<open>pairValue\<close> is the byte that the \<open>i\<close>-th
  pair of digits denotes.
\<close>

definition isHexDigit :: "jschar \<Rightarrow> bool" where
  "isHexDigit c = (c \<in> set (str ''0123456789ABCDEFabcdef''))"

definition digitValue :: "jschar \<Rightarrow> byte" where
  "digitValue c =
     (if c \<le> 0x39 then ucast (c - 0x30)
      else if c \<le> 0x46 then ucast (c - 0x41 + 10)
      else ucast (c - 0x61 + 10))"

definition malformedHex :: "ustring \<Rightarrow> bool" where
  "malformedHex clean = (odd (length clean) \<or> (\<exists>c \<in> set clean. \<not> isHexDigit c))"

definition stripWhitespace :: "ustring \<Rightarrow> ustring" where
  "stripWhitespace s = filter (\<lambda>c. \<not> isWhitespace c) s"

definition pairValue :: "ustring \<Rightarrow> nat \<Rightarrow> byte" where
  "pairValue clean i = digitValue (clean ! (2 * i)) * 16 + digitValue (clean ! (2 * i + 1))"

text \<open>
  A line is centred in a width as the formatter's own centre alignment centres it: the
  number of its leading spaces is half of what the width leaves beside the rest of the
  line, rounded down (and 0 when the rest is wider).
\<close>

definition centredIn :: "int \<Rightarrow> ustring \<Rightarrow> bool" where
  "centredIn lw line =
     (let n = length (takeWhile (\<lambda>c. c = 0x20) line);
          content = drop n line
      in int n = max 0 ((lw - int (getTextWidth content)) div 2))"

text \<open>The line that flushing a non-empty line buffer appends.\<close>

definition flushed :: "formatter \<Rightarrow> ustring list" where
  "flushed st = (if currentLine st = [] then [] else [formatLine st (currentLine st)])"

text \<open>
  Two formatter states are equivalent when they differ at most in their alignment and
  neither alignment is CENTER or RIGHT.
\<close>

definition leftLike :: "byte \<Rightarrow> bool" where
  "leftLike a \<longleftrightarrow> a \<noteq> ALIGN_CENTER \<and> a \<noteq> ALIGN_RIGHT"

definition alignEquiv :: "formatter \<Rightarrow> formatter \<Rightarrow> bool" where
  "alignEquiv s t \<longleftrightarrow>
     lines s = lines t \<and> currentLine s = currentLine t \<and> isBold s = isBold t \<and>
     hasUnderline s = hasUnderline t \<and> lineWidth s = lineWidth t \<and>
     (currentAlign s = currentAlign t \<or> (leftLike (currentAlign s) \<and> leftLike (currentAlign t)))"

section \<open>Evaluation on concrete inputs\<close>

lemmas command_defs = INITIALIZE_def ALIGN_def PRINT_AND_FEED_def CUT_PAPER_def
  FONT_SIZE_def BOLD_def UNDERLINE_def LINE_SPACING_def CHAR_SPACING_def BOLD_MODE_def

lemmas parse_defs = parse_INITIALIZE_def parse_ALIGN_def parse_PRINT_AND_FEED_def
  parse_CUT_PAPER_def parse_FONT_SIZE_def parse_BOLD_def parse_UNDERLINE_def
  parse_LINE_SPACING_def parse_CHAR_SPACING_def parse_BOLD_MODE_def

lemmas tokenizer_eval = parseBuffer_def parseBuffer_loop.simps parseNextItem_def
  findCommand_def COMMANDS_def command_defs parseCommand_def parse_defs at_def value_of_def
  Let_def

section \<open>The registry scan\<close>

lemma bytesMatch_iff:
  "pos + length sig \<le> length data \<Longrightarrow>
     bytesMatch data pos sig \<longleftrightarrow> take (length sig) (drop pos data) = sig"
proof (induction sig arbitrary: pos)
  case Nil
  then show ?case by simp
next
  case (Cons b bs)
  from Cons.prems have lt: "pos < length data" and le: "Suc pos + length bs \<le> length data"
    by simp_all
  have d: "drop pos data = data ! pos # drop (Suc pos) data"
    using lt by (simp add: Cons_nth_drop_Suc)
  show ?case
    using Cons.IH [OF le] lt by (auto simp: d at_def)
qed

lemma findCommandIn_find:
  "findCommandIn cmds data index = List.find (matchesAt data index) cmds"
  by (induction cmds) (auto simp: matchesAt_def bytesMatch_iff)

text \<open>
  Claim C3. \<open>findCommand\<close> scans the registry in its fixed order and returns the first
  definition whose signature matches at the index; a signature that extends past the end
  of the buffer does not match. This holds for any registry (first conjunct) and for the
  \<open>COMMANDS\<close> table (second conjunct). Consequently, whenever two registered definitions
  both match at a position (which forces one signature to be a byte-prefix of the
  other), the scan selects an entry at or before the earlier one, namely the first
  matching entry of the registry: the later one never wins over the earlier one.
\<close>

theorem findCommand_first_match:
  "findCommandIn cmds data index = List.find (matchesAt data index) cmds \<and>
   findCommand data index = List.find (matchesAt data index) COMMANDS \<and>
   (\<forall>i j. i < j \<and> j < length cmds \<and> matchesAt data index (cmds ! i)
        \<and> matchesAt data index (cmds ! j) \<longrightarrow>
      (\<exists>k\<le>i. findCommandIn cmds data index = Some (cmds ! k)
          \<and> matchesAt data index (cmds ! k)
          \<and> (\<forall>m<k. \<not> matchesAt data index (cmds ! m))))"
proof (intro conjI allI impI)
  show "findCommandIn cmds data index = List.find (matchesAt data index) cmds"
    by (rule findCommandIn_find)
  show "findCommand data index = List.find (matchesAt data index) COMMANDS"
    by (simp add: findCommand_def findCommandIn_find)
next
  fix i j
  assume h: "i < j \<and> j < length cmds \<and> matchesAt data index (cmds ! i)
      \<and> matchesAt data index (cmds ! j)"
  then have "cmds ! i \<in> set cmds" by simp
  with h have "List.find (matchesAt data index) cmds \<noteq> None"
    unfolding find_None_iff by blast
  then obtain c where c: "List.find (matchesAt data index) cmds = Some c" by blast
  then obtain k where k: "k < length cmds" "matchesAt data index (cmds ! k)" "c = cmds ! k"
      "\<forall>m<k. \<not> matchesAt data index (cmds ! m)"
    unfolding find_Some_iff by blast
  from k(4) h have "k \<le> i" by (meson not_le_imp_less)
  with c k show "\<exists>k\<le>i. findCommandIn cmds data index = Some (cmds ! k)
          \<and> matchesAt data index (cmds ! k)
          \<and> (\<forall>m<k. \<not> matchesAt data index (cmds ! m))"
    by (auto simp: findCommandIn_find)
qed

text \<open>
  A deliberately ordered pair: the two-byte signature is registered before a three-byte
  signature that extends it; both match at index 0 and the earlier one is returned.
\<close>

theorem findCommand_first_match_witness:
  "matchesAt [0x1b, 0x40, 0x01] 0
     \<lparr>bytes = [0x1b, 0x40], name = ''SHORT'', description = [], parse = None\<rparr> \<and>
   matchesAt [0x1b, 0x40, 0x01] 0
     \<lparr>bytes = [0x1b, 0x40, 0x01], name = ''LONG'', description = [], parse = None\<rparr> \<and>
   findCommandIn
     [\<lparr>bytes = [0x1b, 0x40], name = ''SHORT'', description = [], parse = None\<rparr>,
      \<lparr>bytes = [0x1b, 0x40, 0x01], name = ''LONG'', description = [], parse = None\<rparr>]
     [0x1b, 0x40, 0x01] 0
   = Some \<lparr>bytes = [0x1b, 0x40], name = ''SHORT'', description = [], parse = None\<rparr>"
proof -
  let ?S = "\<lparr>bytes = [0x1b, 0x40], name = ''SHORT'', description = [], parse = None\<rparr>"
  let ?L = "\<lparr>bytes = [0x1b, 0x40, 0x01], name = ''LONG'', description = [], parse = None\<rparr>"
  let ?d = "[0x1b, 0x40, 0x01] :: byte list"
  have s: "matchesAt ?d 0 ?S" and l: "matchesAt ?d 0 ?L"
    by (simp_all add: matchesAt_def)
  have "\<exists>k\<le>0. findCommandIn [?S, ?L] ?d 0 = Some ([?S, ?L] ! k)
          \<and> matchesAt ?d 0 ([?S, ?L] ! k)
          \<and> (\<forall>m<k. \<not> matchesAt ?d 0 ([?S, ?L] ! m))"
    using findCommand_first_match [of "[?S, ?L]" ?d 0, THEN conjunct2, THEN conjunct2,
        rule_format, of 0 1] s l
    by simp
  then have "findCommandIn [?S, ?L] ?d 0 = Some ?S" by simp
  with s l show ?thesis by blast
qed

section \<open>Tokenizing a signature on its own\<close>

text \<open>
  Claim C8. For every definition of the \<open>COMMANDS\<close> table, tokenizing a buffer that
  consists of exactly its signature bytes yields exactly one item: a command item whose
  command name is the definition's name (its value is undefined, since no parameter byte
  follows).
\<close>

theorem signature_roundtrip:
  "\<forall>c \<in> set COMMANDS.
     \<exists>w h d. parseBuffer dec (bytes c) enc = [CommandItem (name c) None w h d]"
  by (simp add: tokenizer_eval)

theorem signature_roundtrip_witness:
  "ALIGN \<in> set COMMANDS \<and>
   (\<exists>w h d. parseBuffer (\<lambda>e b. None) [0x1b, 0x61] ''utf8'' = [CommandItem ''ALIGN'' None w h d])"
proof -
  have m: "ALIGN \<in> set COMMANDS" by (simp add: COMMANDS_def)
  have "\<exists>w h d. parseBuffer (\<lambda>e b. None) (bytes ALIGN) ''utf8''
      = [CommandItem (name ALIGN) None w h d]"
    using signature_roundtrip [of "\<lambda>e b. None" "''utf8''"] m by blast
  then have "\<exists>w h d. parseBuffer (\<lambda>e b. None) [0x1b, 0x61] ''utf8''
      = [CommandItem ''ALIGN'' None w h d]"
    by (simp add: ALIGN_def)
  with m show ?thesis by blast
qed

section \<open>The text decoder\<close>





section \<open>Which bytes each item comes from\<close>

lemmas text_eval = parseTextData_def parseTextData_loop.simps parseTextData_end_def
  isNewLine_def isPrintableChar_def decodeText_def createTextItem_def asciiDecoder_def

lemma subarray_snoc:
  "a \<le> i \<Longrightarrow> i < length buf \<Longrightarrow> subarray buf a (Suc i) = subarray buf a i @ [buf ! i]"
  by (simp add: subarray_def Suc_diff_le take_Suc_conv_app_nth)

lemma subarray_empty [simp]: "subarray buf a a = []"
  by (simp add: subarray_def)

lemma accounted_extend:
  assumes "skippedAt buffer i" "accounted buffer (Suc i) r" "\<not> commandResult r"
  shows "accounted buffer i r"
proof -
  have *: "skippedAt buffer p" if "\<forall>p. Suc i \<le> p \<and> p < n \<longrightarrow> skippedAt buffer p"
      "i \<le> p" "p < n" for n p
    using assms(1) that by (cases "p = i") auto
  show ?thesis
  proof (cases "item r")
    case None
    then show ?thesis using assms(2) * by (auto simp: accounted_def)
  next
    case (Some t)
    show ?thesis
    proof (cases t)
      case (CommandItem nm v w h d)
      then show ?thesis using assms(3) Some by (simp add: commandResult_def)
    next
      case (TextItem dt tx bs e ds)
      then show ?thesis using assms(2) Some * [of "nextIndex r - length bs"]
        by (auto simp: accounted_def)
    qed
  qed
qed

lemma parseTextData_end_accounted:
  assumes "index \<le> length buffer" "length tb \<le> index"
    "subarray buffer (index - length tb) index = tb"
    "\<forall>p. index - length tb \<le> p \<and> p < index \<longrightarrow> textByteAt buffer p"
  shows "accounted buffer (index - length tb) (parseTextData_end dec enc index tb)
     \<and> \<not> commandResult (parseTextData_end dec enc index tb)"
  using assms
  by (auto simp: accounted_def parseTextData_end_def createTextItem_def Let_def
      commandResult_def)

lemma parseTextData_loop_accounted:
  assumes "index \<le> length buffer" "length tb \<le> index"
    "subarray buffer (index - length tb) index = tb"
    "\<forall>p. index - length tb \<le> p \<and> p < index \<longrightarrow> textByteAt buffer p"
  shows "accounted buffer (index - length tb) (parseTextData_loop dec buffer enc index tb)
     \<and> \<not> commandResult (parseTextData_loop dec buffer enc index tb)"
  using assms
proof (induction dec buffer enc index tb rule: parseTextData_loop.induct)
  case (1 dec buffer enc index textBytes)
  note inv = "1.prems"
  let ?a = "index - length textBytes"
  let ?end = "parseTextData_end dec enc index textBytes"
  have end_ok: "accounted buffer ?a ?end \<and> \<not> commandResult ?end"
    using inv by (intro parseTextData_end_accounted) auto
  show ?case
  proof (cases "index < length buffer")
    case False
    then show ?thesis using end_ok by (subst (1 2) parseTextData_loop.simps) simp
  next
    case inb: True
    let ?byte = "buffer ! index"
    consider (cmd) "findCommand buffer index \<noteq> None"
      | (nl_stop) "findCommand buffer index = None" "isNewLine ?byte" "textBytes \<noteq> []"
      | (nl) "findCommand buffer index = None" "isNewLine ?byte" "textBytes = []"
      | (print) "findCommand buffer index = None" "\<not> isNewLine ?byte" "isPrintableChar ?byte"
      | (stop) "findCommand buffer index = None" "\<not> isNewLine ?byte"
          "\<not> isPrintableChar ?byte" "textBytes \<noteq> []"
      | (skip) "findCommand buffer index = None" "\<not> isNewLine ?byte"
          "\<not> isPrintableChar ?byte" "textBytes = []"
      by blast
    then show ?thesis
    proof cases
      case cmd
      then show ?thesis using end_ok inb
        by (subst (1 2) parseTextData_loop.simps) (simp add: Let_def)
    next
      case nl_stop
      then show ?thesis using end_ok inb
        by (subst (1 2) parseTextData_loop.simps) (simp add: Let_def)
    next
      case nl
      have "subarray buffer index (Suc index) = [?byte]"
        using subarray_snoc [of index index buffer] inb by simp
      then show ?thesis using nl inb
        by (subst (1 2) parseTextData_loop.simps)
          (auto simp: Let_def accounted_def createTextItem_def commandResult_def newlineAt_def)
    next
      case print
      have s: "subarray buffer ?a (Suc index) = textBytes @ [?byte]"
        using subarray_snoc [of ?a index buffer] inb inv by simp
      have t: "\<forall>p. ?a \<le> p \<and> p < Suc index \<longrightarrow> textByteAt buffer p"
      proof (intro allI impI)
        fix p assume "?a \<le> p \<and> p < Suc index"
        then show "textByteAt buffer p"
          using inv(4) print inb by (cases "p = index") (auto simp: textByteAt_def)
      qed
      have "accounted buffer (index + 1 - length (textBytes @ [?byte]))
              (parseTextData_loop dec buffer enc (index + 1) (textBytes @ [?byte]))
            \<and> \<not> commandResult (parseTextData_loop dec buffer enc (index + 1) (textBytes @ [?byte]))"
        using print inb inv s t by (intro 1(1)) auto
      then show ?thesis using print inb
        by (subst (1 2) parseTextData_loop.simps) (simp add: Let_def)
    next
      case stop
      then show ?thesis using end_ok inb
        by (subst (1 2) parseTextData_loop.simps) (simp add: Let_def)
    next
      case skip
      have "accounted buffer (index + 1 - length textBytes)
              (parseTextData_loop dec buffer enc (index + 1) textBytes)
            \<and> \<not> commandResult (parseTextData_loop dec buffer enc (index + 1) textBytes)"
        using skip inb inv by (intro 1(2)) auto
      moreover have "skippedAt buffer index"
        using skip inb by (simp add: skippedAt_def)
      ultimately have "accounted buffer index
              (parseTextData_loop dec buffer enc (index + 1) textBytes)
            \<and> \<not> commandResult (parseTextData_loop dec buffer enc (index + 1) textBytes)"
        using skip accounted_extend by simp
      then show ?thesis using skip inb
        by (subst (1 2) parseTextData_loop.simps) (simp add: Let_def)
    qed
  qed
qed

lemma parseCommand_COMMANDS:
  assumes "c \<in> set COMMANDS"
  shows "\<exists>w h d. parseCommand buffer s c =
     \<lparr>item = Some (CommandItem (name c)
               (if name c = ''INITIALIZE'' then None else at buffer (s + 2)) w h d),
      nextIndex = (if name c \<noteq> ''INITIALIZE'' \<and> s + 2 < length buffer then s + 3 else s + 2)\<rparr>"
  using assms
  by (auto simp: COMMANDS_def command_defs parseCommand_def parse_defs value_of_def at_def Let_def)

lemma findCommand_matches:
  assumes "findCommand buffer s = Some c"
  shows "c \<in> set COMMANDS" "s + 2 \<le> length buffer" "subarray buffer s (s + 2) = bytes c"
proof -
  from assms have f: "List.find (matchesAt buffer s) COMMANDS = Some c"
    by (simp add: findCommand_def findCommandIn_find)
  then show c: "c \<in> set COMMANDS" unfolding find_Some_iff by auto
  from f have m: "matchesAt buffer s c" unfolding find_Some_iff by auto
  from c have l: "length (bytes c) = 2" by (rule COMMANDS_bytes_length)
  from m l show "s + 2 \<le> length buffer" by (simp add: matchesAt_def)
  from m l show "subarray buffer s (s + 2) = bytes c" by (simp add: matchesAt_def subarray_def)
qed

lemma parseCommand_accounted:
  assumes "findCommand buffer s = Some c"
  shows "accounted buffer s (parseCommand buffer s c)"
proof -
  note m = findCommand_matches [OF assms]
  obtain w h d where p: "parseCommand buffer s c =
     \<lparr>item = Some (CommandItem (name c)
               (if name c = ''INITIALIZE'' then None else at buffer (s + 2)) w h d),
      nextIndex = (if name c \<noteq> ''INITIALIZE'' \<and> s + 2 < length buffer then s + 3 else s + 2)\<rparr>"
    using parseCommand_COMMANDS [OF m(1)] by blast
  have three: "subarray buffer s (s + 3) = bytes c @ [buffer ! (s + 2)]" if "s + 2 < length buffer"
    using subarray_snoc [of s "s + 2" buffer] that m(3) by (simp add: numeral_3_eq_3)
  show ?thesis
    unfolding p accounted_def using m three
    by (auto simp: at_def intro!: bexI [of _ c])
qed

lemma parseNextItem_accounted:
  assumes "index < length buffer"
  shows "accounted buffer index (parseNextItem dec buffer index enc)"
proof (cases "findCommand buffer index")
  case None
  have "accounted buffer (index - length ([] :: byte list))
          (parseTextData_loop dec buffer enc index [])"
    using assms by (intro parseTextData_loop_accounted [THEN conjunct1]) auto
  then show ?thesis using None by (simp add: parseNextItem_def parseTextData_def)
next
  case (Some c)
  then show ?thesis using parseCommand_accounted [OF Some] by (simp add: parseNextItem_def)
qed

lemma parseBuffer_loop_steps:
  "parseBuffer_loop dec buffer enc index acc = acc @ itemsOf (parseSteps dec buffer enc index)"
proof (induction dec buffer enc index acc rule: parseBuffer_loop.induct)
  case (1 dec buffer enc index result)
  show ?case
  proof (cases "index < length buffer")
    case False
    then show ?thesis
      by (subst parseBuffer_loop.simps, subst parseSteps.simps)
        (simp add: itemsOf_def)
  next
    case True
    show ?thesis
      using True 1 [OF True refl]
      by (subst parseBuffer_loop.simps, subst parseSteps.simps)
        (auto simp: itemsOf_def Let_def split: option.splits)
  qed
qed

lemma parseBuffer_steps: "parseBuffer dec buffer enc = itemsOf (parseSteps dec buffer enc 0)"
proof (cases "length buffer = 0")
  case True
  then show ?thesis
    by (subst parseSteps.simps) (simp add: parseBuffer_def itemsOf_def)
next
  case False
  then show ?thesis by (simp add: parseBuffer_def parseBuffer_loop_steps)
qed

lemma parseSteps_contiguous:
  "index \<le> length buffer \<Longrightarrow>
     contiguous index (length buffer) (parseSteps dec buffer enc index) \<and>
     (\<forall>(s, r) \<in> set (parseSteps dec buffer enc index). accounted buffer s r)"
proof (induction dec buffer enc index rule: parseSteps.induct)
  case (1 dec buffer enc index)
  show ?case
  proof (cases "index < length buffer")
    case False
    then show ?thesis using 1(2) by (subst (1 2) parseSteps.simps) simp
  next
    case True
    let ?r = "parseNextItem dec buffer index enc"
    have a: "accounted buffer index ?r" by (rule parseNextItem_accounted [OF True])
    then have le: "nextIndex ?r \<le> length buffer" by (simp add: accounted_def)
    have lt: "index < nextIndex ?r" by (rule parseNextItem_progress [OF True])
    note ih = 1(1) [OF True refl le]
    show ?thesis
      using True a lt ih by (subst (1 2) parseSteps.simps) (simp add: Let_def)
  qed
qed

lemma subarray_append:
  assumes "a \<le> n" "n \<le> b"
  shows "subarray buffer a n @ subarray buffer n b = subarray buffer a b"
proof -
  have "take ((n - a) + (b - n)) (drop a buffer)
      = take (n - a) (drop a buffer) @ take (b - n) (drop (n - a) (drop a buffer))"
    by (rule take_add)
  moreover have "(n - a) + (b - n) = b - a" using assms by simp
  moreover have "drop (n - a) (drop a buffer) = drop n buffer" using assms by simp
  ultimately show ?thesis by (simp add: subarray_def)
qed

lemma contiguous_concat:
  "contiguous a b steps \<Longrightarrow> b \<le> length buffer \<Longrightarrow>
     concat (map (\<lambda>(s, r). subarray buffer s (nextIndex r)) steps) = subarray buffer a b
     \<and> (\<Sum>(s, r)\<leftarrow>steps. nextIndex r - s) = b - a \<and> a \<le> b"
proof (induction steps arbitrary: a)
  case Nil
  then show ?case by simp
next
  case (Cons x steps)
  obtain s r where x: "x = (s, r)" by (cases x)
  from Cons.prems x have c: "s = a" "a < nextIndex r" "contiguous (nextIndex r) b steps"
    by simp_all
  note ih = Cons.IH [OF c(3) Cons.prems(2)]
  have "subarray buffer a (nextIndex r) @ subarray buffer (nextIndex r) b = subarray buffer a b"
    using c(2) ih by (intro subarray_append) simp_all
  then show ?case using ih c x by simp
qed

lemma contiguous_before:
  "contiguous a b steps \<Longrightarrow> p < a \<Longrightarrow> filter (covers p) steps = []"
  by (induction a b steps rule: contiguous.induct) (auto simp: covers_def)

lemma contiguous_covers:
  "contiguous a b steps \<Longrightarrow> a \<le> p \<Longrightarrow> p < b \<Longrightarrow> length (filter (covers p) steps) = 1"
proof (induction a b steps rule: contiguous.induct)
  case (1 a b)
  then show ?case by simp
next
  case (2 a b s r rest)
  show ?case
  proof (cases "p < nextIndex r")
    case True
    then have "covers p (s, r)" using 2 by (simp add: covers_def)
    moreover have "filter (covers p) rest = []"
      using 2 True contiguous_before [of "nextIndex r" b rest p] by simp
    ultimately show ?thesis by simp
  next
    case False
    then have "\<not> covers p (s, r)" by (simp add: covers_def)
    then show ?thesis using 2 False by simp
  qed
qed


text \<open>
  Claim C1. \<open>parseBuffer\<close> terminates on every buffer (it is a total function: the
  loops \<open>parseBuffer_loop\<close> and \<open>parseTextData_loop\<close> are defined with their
  termination proofs), and its result accounts for every byte exactly once. With the
  trace \<open>parseSteps\<close> of its loop:
  \<^item> the items returned are the items of the steps, in order;
  \<^item> the steps' ranges follow each other without gap or overlap from 0 to the length of
    the buffer;
  \<^item> within each step's range every byte belongs to the item of that step (a command's
    signature plus its consumed parameter byte, a text item's byte run, a single line
    terminator) or is a skipped unprintable byte;
  \<^item> the ranges concatenated are the buffer, their lengths add up to its length, and
    every position of the buffer lies in the range of exactly one step.
\<close>

theorem parseBuffer_accounts_for_every_byte:
  "parseBuffer dec buffer enc = itemsOf (parseSteps dec buffer enc 0) \<and>
   contiguous 0 (length buffer) (parseSteps dec buffer enc 0) \<and>
   (\<forall>(s, r) \<in> set (parseSteps dec buffer enc 0). accounted buffer s r) \<and>
   concat (map (\<lambda>(s, r). subarray buffer s (nextIndex r)) (parseSteps dec buffer enc 0))
     = buffer \<and>
   (\<Sum>(s, r)\<leftarrow>parseSteps dec buffer enc 0. nextIndex r - s) = length buffer \<and>
   (\<forall>p<length buffer. length (filter (covers p) (parseSteps dec buffer enc 0)) = 1)"
proof -
  let ?steps = "parseSteps dec buffer enc 0"
  have c: "contiguous 0 (length buffer) ?steps"
    and a: "\<forall>(s, r) \<in> set ?steps. accounted buffer s r"
    using parseSteps_contiguous [of 0 buffer dec enc] by simp_all
  have cc: "concat (map (\<lambda>(s, r). subarray buffer s (nextIndex r)) ?steps)
      = subarray buffer 0 (length buffer)"
    and sm: "(\<Sum>(s, r)\<leftarrow>?steps. nextIndex r - s) = length buffer - 0"
    using contiguous_concat [OF c, of buffer] by simp_all
  have cv: "\<forall>p<length buffer. length (filter (covers p) ?steps) = 1"
    using contiguous_covers [OF c] by simp
  show ?thesis
    using c a cc sm cv by (simp add: parseBuffer_steps subarray_def)
qed

text \<open>
  ESC a 1, a NUL byte, "Hi" and a line feed: three steps, the second of which skips the
  NUL byte before its text run.
\<close>

theorem parseBuffer_accounts_for_every_byte_witness:
  "map (\<lambda>(s, r). (s, nextIndex r))
     (parseSteps asciiDecoder [0x1b, 0x61, 0x01, 0x00, 0x48, 0x69, 0x0a] ''utf8'' 0)
     = [(0, 3), (3, 6), (6, 7)] \<and>
   map item_bytes (parseBuffer asciiDecoder [0x1b, 0x61, 0x01, 0x00, 0x48, 0x69, 0x0a] ''utf8'')
     = map item_bytes (itemsOf
         (parseSteps asciiDecoder [0x1b, 0x61, 0x01, 0x00, 0x48, 0x69, 0x0a] ''utf8'' 0)) \<and>
   accounted [0x1b, 0x61, 0x01, 0x00, 0x48, 0x69, 0x0a] 3
     (parseNextItem asciiDecoder [0x1b, 0x61, 0x01, 0x00, 0x48, 0x69, 0x0a] 3 ''utf8'') \<and>
   concat (map (\<lambda>(s, r). subarray [0x1b, 0x61, 0x01, 0x00, 0x48, 0x69, 0x0a] s (nextIndex r))
     (parseSteps asciiDecoder [0x1b, 0x61, 0x01, 0x00, 0x48, 0x69, 0x0a] ''utf8'' 0))
     = [0x1b, 0x61, 0x01, 0x00, 0x48, 0x69, 0x0a] \<and>
   length (filter (covers 3)
     (parseSteps asciiDecoder [0x1b, 0x61, 0x01, 0x00, 0x48, 0x69, 0x0a] ''utf8'' 0)) = 1"
proof -
  let ?B = "[0x1b, 0x61, 0x01, 0x00, 0x48, 0x69, 0x0a] :: byte list"
  let ?steps = "parseSteps asciiDecoder ?B ''utf8'' 0"
  note t = parseBuffer_accounts_for_every_byte [of asciiDecoder ?B "''utf8''"]
  have e: "map (\<lambda>(s, r). (s, nextIndex r)) ?steps = [(0, 3), (3, 6), (6, 7)]"
    by (simp add: parseSteps.simps tokenizer_eval text_eval)
  have m: "(3, parseNextItem asciiDecoder ?B 3 ''utf8'') \<in> set ?steps"
    by (simp add: parseSteps.simps tokenizer_eval text_eval)
  have a: "accounted ?B 3 (parseNextItem asciiDecoder ?B 3 ''utf8'')"
    using t m by blast
  have p: "parseBuffer asciiDecoder ?B ''utf8'' = itemsOf ?steps"
    using t by blast
  have c: "concat (map (\<lambda>(s, r). subarray ?B s (nextIndex r)) ?steps) = ?B"
    using t by blast
  have "3 < length ?B" by simp
  then have f: "length (filter (covers 3) ?steps) = 1"
    using t by blast
  show ?thesis using e a p c f by simp
qed










text \<open>
  Claim C10, as amended. Whenever the cursor of the tokenizer is at a position where the
  registry matches a parameter-taking command (any definition of the table but
  \<open>INITIALIZE\<close>) and the buffer ends with that signature, the step emits the command
  item of that definition with an undefined value and moves the cursor past the two
  signature bytes only, to the end of the buffer, where the loop stops with that item
  as the last one.
\<close>

theorem trailing_signature_at_cursor:
  assumes "findCommand buffer index = Some c" "name c \<noteq> ''INITIALIZE''"
    "index + length (bytes c) = length buffer"
  shows "\<exists>w h d.
     parseNextItem dec buffer index enc
       = \<lparr>item = Some (CommandItem (name c) None w h d), nextIndex = index + 2\<rparr> \<and>
     index + 2 = length buffer \<and>
     parseBuffer_loop dec buffer enc index acc = acc @ [CommandItem (name c) None w h d]"
proof -
  note m = findCommand_matches [OF assms(1)]
  from m(1) have l: "length (bytes c) = 2" by (rule COMMANDS_bytes_length)
  with assms(3) have e: "index + 2 = length buffer" by simp
  obtain w h d where p: "parseCommand buffer index c =
     \<lparr>item = Some (CommandItem (name c) None w h d), nextIndex = index + 2\<rparr>"
    using parseCommand_COMMANDS [OF m(1), of buffer index] assms(2) e
    by (auto simp: at_def)
  then have n: "parseNextItem dec buffer index enc
       = \<lparr>item = Some (CommandItem (name c) None w h d), nextIndex = index + 2\<rparr>"
    using assms(1) by (simp add: parseNextItem_def)
  have "parseBuffer_loop dec buffer enc index acc = acc @ [CommandItem (name c) None w h d]"
    using n e
    by (subst parseBuffer_loop.simps, subst parseBuffer_loop.simps) (simp add: Let_def)
  with n e show ?thesis by blast
qed

theorem trailing_signature_at_cursor_witness:
  "findCommand [0x41, 0x1b, 0x61] 1 = Some ALIGN \<and> name ALIGN \<noteq> ''INITIALIZE'' \<and>
   1 + length (bytes ALIGN) = length [0x41, 0x1b, 0x61 :: byte] \<and>
   (\<exists>w h d.
     parseNextItem asciiDecoder [0x41, 0x1b, 0x61] 1 ''utf8''
       = \<lparr>item = Some (CommandItem ''ALIGN'' None w h d), nextIndex = 3\<rparr> \<and>
     parseBuffer_loop asciiDecoder [0x41, 0x1b, 0x61] ''utf8'' 1 []
       = [CommandItem ''ALIGN'' None w h d])"
proof -
  let ?B = "[0x41, 0x1b, 0x61] :: byte list"
  have f: "findCommand ?B 1 = Some ALIGN"
    by (simp add: findCommand_def COMMANDS_def command_defs at_def)
  have n: "name ALIGN \<noteq> ''INITIALIZE''" by (simp add: ALIGN_def)
  have l: "1 + length (bytes ALIGN) = length ?B" by (simp add: ALIGN_def)
  from trailing_signature_at_cursor [OF f n l, of asciiDecoder "''utf8''" "[]"]
  have "\<exists>w h d.
     parseNextItem asciiDecoder ?B 1 ''utf8''
       = \<lparr>item = Some (CommandItem ''ALIGN'' None w h d), nextIndex = 3\<rparr> \<and>
     parseBuffer_loop asciiDecoder ?B ''utf8'' 1 [] = [CommandItem ''ALIGN'' None w h d]"
    by (simp add: ALIGN_def numeral_3_eq_3)
  with f n l show ?thesis by blast
qed

text \<open>
  The claim as stated, for every buffer that ends with such a signature, fails: in
  ESC a ESC a the third byte is consumed as the parameter of the first command, so the
  cursor never stands at the second signature. The items are ALIGN with value 27 and the
  text "a"; no command item with an undefined value is emitted.
\<close>

theorem trailing_signature_counterexample:
  "drop 2 [0x1b, 0x61, 0x1b, 0x61] = bytes ALIGN \<and>
   map (\<lambda>t. (commandName t, value_of t))
     (parseBuffer asciiDecoder [0x1b, 0x61, 0x1b, 0x61] ''utf8'')
     = [(Some ''ALIGN'', Some 0x1b), (None, None)] \<and>
   \<not> (\<exists>t \<in> set (parseBuffer asciiDecoder [0x1b, 0x61, 0x1b, 0x61] ''utf8'').
        commandName t = Some ''ALIGN'' \<and> value_of t = None)"
  by (simp add: tokenizer_eval text_eval commandName_def)

section \<open>Hexadecimal input\<close>

lemma hex_digits:
  "set (str ''0123456789ABCDEFabcdef'')
     = {0x30, 0x31, 0x32, 0x33, 0x34, 0x35, 0x36, 0x37, 0x38, 0x39, 0x41, 0x42, 0x43, 0x44,
        0x45, 0x46, 0x61, 0x62, 0x63, 0x64, 0x65, 0x66}"
  by (simp add: str_def)

lemma unhex_digit: "isHexDigit c \<Longrightarrow> unhex (ucast c) = Some (digitValue c)"
  unfolding isHexDigit_def hex_digits
  by (elim insertE emptyE; simp add: unhex_def digitValue_def)

lemma bufferFromHex_valid:
  "even (length clean) \<Longrightarrow> \<forall>c \<in> set clean. isHexDigit c \<Longrightarrow>
     length (bufferFromHex clean) = length clean div 2 \<and>
     (\<forall>i < length clean div 2. bufferFromHex clean ! i = pairValue clean i)"
proof (induction clean rule: bufferFromHex.induct)
  case (1 a b rest)
  from "1.prems" have xy: "unhex (ucast a) = Some (digitValue a)"
      "unhex (ucast b) = Some (digitValue b)"
    by (simp_all add: unhex_digit)
  have ih: "length (bufferFromHex rest) = length rest div 2 \<and>
     (\<forall>i < length rest div 2. bufferFromHex rest ! i = pairValue rest i)"
    using "1.prems" xy by (intro "1.IH") auto
  have "bufferFromHex (a # b # rest) ! i = pairValue (a # b # rest) i"
    if "i < length (a # b # rest) div 2" for i
  proof (cases i)
    case 0
    then show ?thesis using xy by (simp add: pairValue_def)
  next
    case (Suc j)
    then show ?thesis using xy ih that by (simp add: pairValue_def)
  qed
  then show ?case using xy ih by simp
qed simp_all

text \<open>
  Claim C4, as amended. For every input string, after stripping whitespace:
  \<^item> if the remainder is empty or has odd length, \<open>parseHexString\<close> raises an error and
    no tokenization occurs;
  \<^item> if the remainder is not empty, has even length and consists of hexadecimal digits
    only, the string is accepted: the result is \<open>parseBuffer\<close> on the bytes that its
    pairs of digits denote.
  Nothing is said about a remainder of even length that contains another character.
\<close>

theorem parseHexString_validation:
  "(stripWhitespace h = [] \<longrightarrow> parseHexString dec h enc = Inl EmptyHexString) \<and>
   (odd (length (stripWhitespace h)) \<longrightarrow> parseHexString dec h enc = Inl OddHexLength) \<and>
   (stripWhitespace h \<noteq> [] \<and> \<not> malformedHex (stripWhitespace h) \<longrightarrow>
      parseHexString dec h enc = Inr (parseBuffer dec (bufferFromHex (stripWhitespace h)) enc) \<and>
      length (bufferFromHex (stripWhitespace h)) = length (stripWhitespace h) div 2 \<and>
      (\<forall>i < length (stripWhitespace h) div 2.
         bufferFromHex (stripWhitespace h) ! i = pairValue (stripWhitespace h) i))"
proof (intro conjI impI)
  assume "stripWhitespace h = []"
  then show "parseHexString dec h enc = Inl EmptyHexString"
    by (simp add: parseHexString_def stripWhitespace_def)
next
  assume "odd (length (stripWhitespace h))"
  then show "parseHexString dec h enc = Inl OddHexLength"
    by (auto simp: parseHexString_def stripWhitespace_def Let_def odd_iff_mod_2_eq_one)
next
  assume a: "stripWhitespace h \<noteq> [] \<and> \<not> malformedHex (stripWhitespace h)"
  then show "parseHexString dec h enc = Inr (parseBuffer dec (bufferFromHex (stripWhitespace h)) enc)"
    by (auto simp: parseHexString_def stripWhitespace_def Let_def malformedHex_def)
  from a have "even (length (stripWhitespace h))" "\<forall>c \<in> set (stripWhitespace h). isHexDigit c"
    by (auto simp: malformedHex_def)
  from bufferFromHex_valid [OF this]
  show "length (bufferFromHex (stripWhitespace h)) = length (stripWhitespace h) div 2"
    and "\<forall>i < length (stripWhitespace h) div 2.
         bufferFromHex (stripWhitespace h) ! i = pairValue (stripWhitespace h) i"
    by simp_all
qed

theorem parseHexString_validation_witness:
  "stripWhitespace (str ''1B 40'') = str ''1B40'' \<and> \<not> malformedHex (str ''1B40'') \<and>
   parseHexString asciiDecoder (str ''1B 40'') ''utf8''
     = Inr (parseBuffer asciiDecoder [0x1b, 0x40] ''utf8'') \<and>
   odd (length (stripWhitespace (str ''1B4''))) \<and>
   parseHexString asciiDecoder (str ''1B4'') ''utf8'' = Inl OddHexLength \<and>
   stripWhitespace (str '' '') = [] \<and>
   parseHexString asciiDecoder (str '' '') ''utf8'' = Inl EmptyHexString"
proof -
  note t = parseHexString_validation [of _ asciiDecoder "''utf8''"]
  have s: "stripWhitespace (str ''1B 40'') = str ''1B40''"
    by (simp add: stripWhitespace_def str_def isWhitespace_def)
  have m: "\<not> malformedHex (str ''1B40'')"
    by (simp add: malformedHex_def str_def isHexDigit_def)
  have b: "bufferFromHex (str ''1B40'') = [0x1b, 0x40]"
    by (simp add: str_def unhex_def)
  have n: "str ''1B40'' \<noteq> []" by (simp add: str_def)
  have ok: "parseHexString asciiDecoder (str ''1B 40'') ''utf8''
     = Inr (parseBuffer asciiDecoder [0x1b, 0x40] ''utf8'')"
    using t [of "str ''1B 40''"] s m b n by simp
  have o: "odd (length (stripWhitespace (str ''1B4'')))"
    by (simp add: stripWhitespace_def str_def isWhitespace_def)
  have bad: "parseHexString asciiDecoder (str ''1B4'') ''utf8'' = Inl OddHexLength"
    using t [of "str ''1B4''"] o by blast
  have e: "stripWhitespace (str '' '') = []"
    by (simp add: stripWhitespace_def str_def isWhitespace_def)
  have empty: "parseHexString asciiDecoder (str '' '') ''utf8'' = Inl EmptyHexString"
    using t [of "str '' ''"] e by blast
  show ?thesis using s m ok o bad e empty by blast
qed

text \<open>
  The claim as stated fails on a string of whitespace only, here a single line feed: the
  remainder is empty, so it has even length and no character that is not a hexadecimal
  digit, and yet the explicit guard for an empty remainder rejects it.
\<close>

theorem parseHexString_counterexample:
  "stripWhitespace [0x0A] = [] \<and> \<not> malformedHex (stripWhitespace [0x0A]) \<and>
   parseHexString asciiDecoder [0x0A] ''utf8'' = Inl EmptyHexString"
  by (simp add: malformedHex_def stripWhitespace_def parseHexString_def isWhitespace_def)

text \<open>
  With \<open>Buffer.from\<close> as the Node.js runtime decodes hexadecimal text, a string with a
  character that is not a hexadecimal digit is not rejected: "1B40ZZ" is parsed as the
  bytes before the first bad pair, and the four characters U+0131 U+0142 U+0134 U+0130,
  whose low bytes are those of "1B40", are parsed as ESC @.
\<close>

lemma parseHexString_non_hex_example:
  "malformedHex (stripWhitespace (str ''1B40ZZ'')) \<and>
   (\<exists>d. parseHexString asciiDecoder (str ''1B40ZZ'') ''utf8''
      = Inr [CommandItem ''INITIALIZE'' None None None d]) \<and>
   malformedHex (stripWhitespace [0x131, 0x142, 0x134, 0x130]) \<and>
   (\<exists>d. parseHexString asciiDecoder [0x131, 0x142, 0x134, 0x130] ''utf8''
      = Inr [CommandItem ''INITIALIZE'' None None None d])"
  by (simp add: malformedHex_def stripWhitespace_def parseHexString_def str_def
      isWhitespace_def isHexDigit_def unhex_def tokenizer_eval)

section \<open>The formatter\<close>

lemmas formatter_eval = formatAsText_def format_def TextFormatter_def processItem_def
  processCommandItem_def processTextItem_def processCutPaperCommand_def processFeed_def
  processInitializeCommand_def resetFormat_def finalizeLine_def addFormattedLine_def
  formatLine_def applyTextStyles_def applyAlignment_def startsWithSpace_def
  getTextWidth_def spaces_def repeat_dash_def value_or_def value_positive_def value_of_def
  isCJK_def isControlChar_def ALIGN_LEFT_def ALIGN_CENTER_def ALIGN_RIGHT_def
  DEFAULT_LINE_WIDTH_def Let_def

lemma replicate_numeral: "replicate (numeral k) x = x # replicate (pred_numeral k) x"
  by (simp add: numeral_eq_Suc)

lemma nat_max_0: "nat (max 0 x) = nat x"
  by (simp add: max_def)

subsection \<open>Paper cut\<close>

text \<open>
  Claim C6, as amended. With a line width that is not negative, formatting a CUT_PAPER
  command item flushes a non-empty line buffer, then appends exactly 6 blank lines, then
  a rule line of \<open>lineWidth\<close> dashes, then the fixed marker line (the paper-cut marker
  between one leading and one trailing space, whatever the line width and the alignment),
  then another rule line of \<open>lineWidth\<close> dashes; with a negative line width the rule
  line cannot be built and the formatter raises \<open>RangeError\<close>. In particular the input 1D5600 parses
  to the one command item CUT_PAPER with value 0, and its formatted text is 6 blank
  lines, a rule of 48 dashes, the marker line and a rule of 48 dashes.
\<close>

theorem cut_paper_layout:
  "(0 \<le> lineWidth st \<longrightarrow>
      processCommandItem st (CommandItem ''CUT_PAPER'' v w h d)
        = Inr (st\<lparr>lines := lines st @ flushed st @ replicate 6 []
                  @ [replicate (nat (lineWidth st)) 0x2D, cutMarker,
                     replicate (nat (lineWidth st)) 0x2D],
                currentLine := []\<rparr>)) \<and>
   (lineWidth st < 0 \<longrightarrow>
      processCommandItem st (CommandItem ''CUT_PAPER'' v w h d) = Inl RangeError) \<and>
   (\<exists>d'. parseBuffer dec [0x1d, 0x56, 0x00] enc
      = [CommandItem ''CUT_PAPER'' (Some 0) None None d']) \<and>
   formatAsText (parseBuffer dec [0x1d, 0x56, 0x00] enc) None
      = Inr (join (replicate 6 [] @ [replicate 48 0x2D, cutMarker, replicate 48 0x2D]))"
proof (intro conjI impI)
  assume "0 \<le> lineWidth st"
  then show "processCommandItem st (CommandItem ''CUT_PAPER'' v w h d)
      = Inr (st\<lparr>lines := lines st @ flushed st @ replicate 6 []
                @ [replicate (nat (lineWidth st)) 0x2D, cutMarker,
                   replicate (nat (lineWidth st)) 0x2D],
              currentLine := []\<rparr>)"
    by (simp add: processCommandItem_def processCutPaperCommand_def repeat_dash_def
        addFormattedLine_def flushed_def Let_def)
next
  assume "lineWidth st < 0"
  then show "processCommandItem st (CommandItem ''CUT_PAPER'' v w h d) = Inl RangeError"
    by (simp add: processCommandItem_def processCutPaperCommand_def repeat_dash_def
        addFormattedLine_def Let_def)
next
  show p: "\<exists>d'. parseBuffer dec [0x1d, 0x56, 0x00] enc
      = [CommandItem ''CUT_PAPER'' (Some 0) None None d']"
    by (simp add: tokenizer_eval)
  then obtain d' where "parseBuffer dec [0x1d, 0x56, 0x00] enc
      = [CommandItem ''CUT_PAPER'' (Some 0) None None d']" by blast
  then show "formatAsText (parseBuffer dec [0x1d, 0x56, 0x00] enc) None
      = Inr (join (replicate 6 [] @ [replicate 48 0x2D, cutMarker, replicate 48 0x2D]))"
    by (simp add: formatter_eval)
qed

theorem cut_paper_layout_witness:
  "0 \<le> lineWidth ((TextFormatter (Some 4))\<lparr>currentLine := [0x48, 0x69]\<rparr>) \<and>
   processCommandItem ((TextFormatter (Some 4))\<lparr>currentLine := [0x48, 0x69]\<rparr>)
       (CommandItem ''CUT_PAPER'' (Some 0) None None [])
     = Inr ((TextFormatter (Some 4))
         \<lparr>lines := [[0x48, 0x69], [], [], [], [], [], [],
                    [0x2D, 0x2D, 0x2D, 0x2D], cutMarker, [0x2D, 0x2D, 0x2D, 0x2D]],
          currentLine := []\<rparr>) \<and>
   lineWidth (TextFormatter (Some (- 1))) < 0 \<and>
   processCommandItem (TextFormatter (Some (- 1)))
       (CommandItem ''CUT_PAPER'' (Some 0) None None [])
     = Inl RangeError"
proof -
  let ?st = "(TextFormatter (Some 4))\<lparr>currentLine := [0x48, 0x69]\<rparr>"
  have w: "0 \<le> lineWidth ?st" by (simp add: TextFormatter_def)
  have f: "flushed ?st = [[0x48, 0x69]]"
    by (simp add: flushed_def formatter_eval)
  have r: "replicate 6 ([] :: ustring) = [[], [], [], [], [], []]"
    "replicate (nat (lineWidth ?st)) (0x2D :: jschar) = [0x2D, 0x2D, 0x2D, 0x2D]"
    by (simp_all add: TextFormatter_def numeral_eq_Suc)
  from cut_paper_layout [of ?st "Some 0" None None "[]", THEN conjunct1, rule_format, OF w]
  have "processCommandItem ?st (CommandItem ''CUT_PAPER'' (Some 0) None None [])
     = Inr (?st\<lparr>lines := lines ?st @ flushed ?st @ replicate 6 []
                @ [replicate (nat (lineWidth ?st)) 0x2D, cutMarker,
                   replicate (nat (lineWidth ?st)) 0x2D],
              currentLine := []\<rparr>)" .
  then have "processCommandItem ?st (CommandItem ''CUT_PAPER'' (Some 0) None None [])
     = Inr ((TextFormatter (Some 4))
         \<lparr>lines := [[0x48, 0x69], [], [], [], [], [], [],
                    [0x2D, 0x2D, 0x2D, 0x2D], cutMarker, [0x2D, 0x2D, 0x2D, 0x2D]],
          currentLine := []\<rparr>)"
    unfolding f r by (simp add: TextFormatter_def)
  moreover have n: "lineWidth (TextFormatter (Some (- 1))) < 0"
    by (simp add: TextFormatter_def)
  moreover have "processCommandItem (TextFormatter (Some (- 1)))
       (CommandItem ''CUT_PAPER'' (Some 0) None None []) = Inl RangeError"
    using cut_paper_layout [of "TextFormatter (Some (- 1))" "Some 0" None None "[]"] n
    by blast
  ultimately show ?thesis using w by blast
qed

text \<open>
  The claim as stated fails in that the marker line is not centred: with the default
  width 48 it is line 7 of the output, it has one leading space, and centring what
  follows that space would take 17.
\<close>

theorem cut_marker_counterexample:
  "(case processCommandItem (TextFormatter None) (CommandItem ''CUT_PAPER'' (Some 0) None None [])
    of Inl e \<Rightarrow> False
     | Inr st' \<Rightarrow> lines st' ! 7 = cutMarker \<and> lineWidth st' = 48 \<and>
         length (takeWhile (\<lambda>c. c = 0x20) (lines st' ! 7)) = 1 \<and>
         (lineWidth st' - int (getTextWidth (drop 1 (lines st' ! 7)))) div 2 = 17 \<and>
         \<not> centredIn (lineWidth st') (lines st' ! 7))"
  by (simp add: formatter_eval centredIn_def cutMarker_def nth_append)

subsection \<open>Alignment\<close>

lemma applyAlignment_leftLike:
  "leftLike (currentAlign st) \<Longrightarrow> applyAlignment st orig styled = styled"
  by (simp add: applyAlignment_def leftLike_def Let_def)

lemma formatLine_equiv: "alignEquiv s t \<Longrightarrow> formatLine s x = formatLine t x"
  by (auto simp: alignEquiv_def formatLine_def applyTextStyles_def applyAlignment_def
      leftLike_def Let_def)

lemma addFormattedLine_equiv:
  "alignEquiv s t \<Longrightarrow> alignEquiv (addFormattedLine s x) (addFormattedLine t x)"
  using formatLine_equiv [of s t x] by (simp add: alignEquiv_def addFormattedLine_def)

lemma flush_equiv:
  assumes "alignEquiv s t"
  shows "alignEquiv ((addFormattedLine s (currentLine s))\<lparr>currentLine := []\<rparr>)
           ((addFormattedLine t (currentLine t))\<lparr>currentLine := []\<rparr>)"
  using addFormattedLine_equiv [OF assms, of "currentLine s"] assms
  by (simp add: alignEquiv_def)

lemma processTextItem_equiv:
  assumes "alignEquiv s t"
  shows "alignEquiv (processTextItem s it) (processTextItem t it)"
proof -
  have c: "currentLine s = currentLine t" using assms by (simp add: alignEquiv_def)
  have a: "alignEquiv (s\<lparr>currentLine := x\<rparr>) (t\<lparr>currentLine := x\<rparr>)" for x
    using assms by (simp add: alignEquiv_def)
  show ?thesis
    using assms flush_equiv [OF assms] a c
    by (simp add: processTextItem_def Let_def)
qed

lemma processFeed_equiv:
  assumes "alignEquiv s t"
  shows "alignEquiv (processFeed s it) (processFeed t it)"
proof -
  define s1 where "s1 = (if length (currentLine s) > 0
             then (addFormattedLine s (currentLine s))\<lparr>currentLine := []\<rparr> else s)"
  define t1 where "t1 = (if length (currentLine t) > 0
             then (addFormattedLine t (currentLine t))\<lparr>currentLine := []\<rparr> else t)"
  define f where "f = value_or (value_of it) 1"
  define s2 where "s2 = (if f > 1 then s1\<lparr>lines := lines s1 @ replicate (unat f - 1) []\<rparr> else s1)"
  define t2 where "t2 = (if f > 1 then t1\<lparr>lines := lines t1 @ replicate (unat f - 1) []\<rparr> else t1)"
  have c: "currentLine s = currentLine t" using assms by (simp add: alignEquiv_def)
  have e1: "alignEquiv s1 t1"
    unfolding s1_def t1_def using assms flush_equiv [OF assms] c by simp
  have up: "alignEquiv (a\<lparr>lines := lines a @ x\<rparr>) (b\<lparr>lines := lines b @ x\<rparr>)"
    if "alignEquiv a b" for a b x
    using that by (simp add: alignEquiv_def)
  have e2: "alignEquiv s2 t2"
    unfolding s2_def t2_def using e1 up [OF e1] by simp
  then have l: "lines s2 = lines t2" by (simp add: alignEquiv_def)
  have ps: "processFeed s it = (if length (lines s2) > 0 \<and> str_includes (last (lines s2)) (str ''---'')
         then s2\<lparr>lines := lines s2 @ [[]]\<rparr> else s2)"
    by (simp add: processFeed_def Let_def s1_def s2_def f_def)
  have pt: "processFeed t it = (if length (lines t2) > 0 \<and> str_includes (last (lines t2)) (str ''---'')
         then t2\<lparr>lines := lines t2 @ [[]]\<rparr> else t2)"
    by (simp add: processFeed_def Let_def t1_def t2_def f_def)
  show ?thesis
    unfolding ps pt l using e2 up [OF e2, of "[[]]"] l by simp
qed

lemma processCutPaperCommand_equiv:
  assumes "alignEquiv s t"
  shows "rel_sum (=) alignEquiv (processCutPaperCommand s) (processCutPaperCommand t)"
proof -
  have c: "currentLine s = currentLine t" "lineWidth s = lineWidth t"
    using assms by (simp_all add: alignEquiv_def)
  have f: "formatLine s (currentLine t) = formatLine t (currentLine t)"
    using formatLine_equiv [OF assms] by simp
  show ?thesis
    using assms c f
    by (auto simp: processCutPaperCommand_def repeat_dash_def addFormattedLine_def
        alignEquiv_def Let_def)
qed

lemma processInitializeCommand_equiv:
  assumes "alignEquiv s t"
  shows "alignEquiv (processInitializeCommand s) (processInitializeCommand t)"
proof -
  have c: "currentLine s = currentLine t" using assms by (simp add: alignEquiv_def)
  have f: "formatLine s (currentLine t) = formatLine t (currentLine t)"
    using formatLine_equiv [OF assms] by simp
  show ?thesis
    using assms c f
    by (auto simp: processInitializeCommand_def resetFormat_def addFormattedLine_def
        alignEquiv_def)
qed

lemma processCommandItem_equiv:
  assumes "alignEquiv s t"
  shows "rel_sum (=) alignEquiv (processCommandItem s it) (processCommandItem t it)"
proof -
  have u: "alignEquiv (s\<lparr>currentAlign := a\<rparr>) (t\<lparr>currentAlign := a\<rparr>)"
    "alignEquiv (s\<lparr>isBold := b\<rparr>) (t\<lparr>isBold := b\<rparr>)"
    "alignEquiv (s\<lparr>hasUnderline := b\<rparr>) (t\<lparr>hasUnderline := b\<rparr>)" for a b
    using assms by (simp_all add: alignEquiv_def)
  show ?thesis
    unfolding processCommandItem_def Let_def
    using assms u processFeed_equiv [OF assms] processCutPaperCommand_equiv [OF assms]
      processInitializeCommand_equiv [OF assms]
    by simp
qed

lemma processItem_equiv:
  assumes "alignEquiv s t"
  shows "rel_sum (=) alignEquiv (processItem s it) (processItem t it)"
  using processCommandItem_equiv [OF assms] processTextItem_equiv [OF assms]
  by (cases it) (simp_all add: processItem_def)

lemma processItems_equiv:
  "alignEquiv s t \<Longrightarrow> rel_sum (=) alignEquiv (processItems s items) (processItems t items)"
proof (induction items arbitrary: s t)
  case Nil
  then show ?case by simp
next
  case (Cons it items)
  show ?case
    using processItem_equiv [OF Cons.prems, of it] Cons.IH
    by (cases "processItem s it"; cases "processItem t it") simp_all
qed

lemma finalizeLine_equiv: "alignEquiv s t \<Longrightarrow> lines (finalizeLine s) = lines (finalizeLine t)"
  using formatLine_equiv [of s t "currentLine t"]
  by (auto simp: finalizeLine_def addFormattedLine_def alignEquiv_def)

lemma format_equiv:
  assumes "alignEquiv s t"
  shows "format s items = format t items"
  using processItems_equiv [OF assms, of items] finalizeLine_equiv
  by (cases "processItems s items"; cases "processItems t items") (simp_all add: format_def)

text \<open>
  Claim C7. Processing an ALIGN command item sets the current alignment from the item's
  value (\<open>value || LEFT\<close>: 1 is CENTER, 2 is RIGHT, 0 and an undefined value are LEFT).
  For every value other than 1 and 2, so for every value outside 0, 1, 2 in particular,
  the formatter then behaves as in the LEFT state: alignment adds no padding to any
  line, every line is formatted as the LEFT state formats it, and whatever items follow,
  the lines produced and the formatted text are those of the LEFT state.
\<close>

theorem align_unknown_defaults_to_left:
  "processCommandItem st (CommandItem ''ALIGN'' v w h d)
     = Inr (st\<lparr>currentAlign := value_or v ALIGN_LEFT\<rparr>) \<and>
   value_or (Some 0) ALIGN_LEFT = ALIGN_LEFT \<and> value_or (Some 1) ALIGN_LEFT = ALIGN_CENTER \<and>
   value_or (Some 2) ALIGN_LEFT = ALIGN_RIGHT \<and>
   (v \<noteq> Some 1 \<and> v \<noteq> Some 2 \<longrightarrow>
      (\<forall>orig styled.
         applyAlignment (st\<lparr>currentAlign := value_or v ALIGN_LEFT\<rparr>) orig styled = styled) \<and>
      (\<forall>txt'. formatLine (st\<lparr>currentAlign := value_or v ALIGN_LEFT\<rparr>) txt'
         = formatLine (st\<lparr>currentAlign := ALIGN_LEFT\<rparr>) txt') \<and>
      (\<forall>items. rel_sum (=) (\<lambda>a b. lines a = lines b)
         (processItems (st\<lparr>currentAlign := value_or v ALIGN_LEFT\<rparr>) items)
         (processItems (st\<lparr>currentAlign := ALIGN_LEFT\<rparr>) items)) \<and>
      (\<forall>items. format (st\<lparr>currentAlign := value_or v ALIGN_LEFT\<rparr>) items
         = format (st\<lparr>currentAlign := ALIGN_LEFT\<rparr>) items))"
proof (intro conjI impI)
  show "processCommandItem st (CommandItem ''ALIGN'' v w h d)
     = Inr (st\<lparr>currentAlign := value_or v ALIGN_LEFT\<rparr>)"
    by (simp add: processCommandItem_def value_of_def)
  show "value_or (Some 0) ALIGN_LEFT = ALIGN_LEFT" "value_or (Some 1) ALIGN_LEFT = ALIGN_CENTER"
    "value_or (Some 2) ALIGN_LEFT = ALIGN_RIGHT"
    by (simp_all add: value_or_def ALIGN_LEFT_def ALIGN_CENTER_def ALIGN_RIGHT_def)
next
  assume o: "v \<noteq> Some 1 \<and> v \<noteq> Some 2"
  let ?s = "st\<lparr>currentAlign := value_or v ALIGN_LEFT\<rparr>"
  let ?t = "st\<lparr>currentAlign := ALIGN_LEFT\<rparr>"
  from o have ll: "leftLike (value_or v ALIGN_LEFT)"
    by (cases v)
      (auto simp: leftLike_def value_or_def ALIGN_LEFT_def ALIGN_CENTER_def ALIGN_RIGHT_def)
  have lt: "leftLike ALIGN_LEFT"
    by (simp add: leftLike_def ALIGN_LEFT_def ALIGN_CENTER_def ALIGN_RIGHT_def)
  have e: "alignEquiv ?s ?t"
    using ll lt by (simp add: alignEquiv_def)
  show "\<forall>orig styled. applyAlignment ?s orig styled = styled"
    using ll by (simp add: applyAlignment_leftLike)
  show "\<forall>txt'. formatLine ?s txt' = formatLine ?t txt'"
    using formatLine_equiv [OF e] by simp
  show "\<forall>items. rel_sum (=) (\<lambda>a b. lines a = lines b) (processItems ?s items) (processItems ?t items)"
  proof
    fix items
    have "alignEquiv a b \<Longrightarrow> lines a = lines b" for a b by (simp add: alignEquiv_def)
    with processItems_equiv [OF e, of items]
    show "rel_sum (=) (\<lambda>a b. lines a = lines b) (processItems ?s items) (processItems ?t items)"
      by (cases "processItems ?s items"; cases "processItems ?t items") simp_all
  qed
  show "\<forall>items. format ?s items = format ?t items"
    using format_equiv [OF e] by simp
qed

theorem align_unknown_defaults_to_left_witness:
  "processCommandItem (TextFormatter (Some 10)) (CommandItem ''ALIGN'' (Some 7) None None [])
     = Inr ((TextFormatter (Some 10))\<lparr>currentAlign := 7\<rparr>) \<and>
   format ((TextFormatter (Some 10))\<lparr>currentAlign := 7\<rparr>)
       [TextItem [0x48, 0x69] [0x48, 0x69] [0x48, 0x69] ''utf8'' []]
     = Inr [0x48, 0x69] \<and>
   format ((TextFormatter (Some 10))\<lparr>currentAlign := ALIGN_CENTER\<rparr>)
       [TextItem [0x48, 0x69] [0x48, 0x69] [0x48, 0x69] ''utf8'' []]
     = Inr [0x20, 0x20, 0x20, 0x20, 0x48, 0x69]"
proof -
  let ?st = "TextFormatter (Some 10)"
  let ?items = "[TextItem [0x48, 0x69] [0x48, 0x69] [0x48, 0x69] ''utf8'' []]"
  note t = align_unknown_defaults_to_left [of ?st "Some 7" None None "[]"]
  have v: "value_or (Some 7) ALIGN_LEFT = 7" by (simp add: value_or_def)
  have o: "Some (7 :: byte) \<noteq> Some 1 \<and> Some (7 :: byte) \<noteq> Some 2" by simp
  have a: "processCommandItem ?st (CommandItem ''ALIGN'' (Some 7) None None [])
     = Inr (?st\<lparr>currentAlign := 7\<rparr>)"
    using t v by simp
  have "format (?st\<lparr>currentAlign := 7\<rparr>) ?items = format (?st\<lparr>currentAlign := ALIGN_LEFT\<rparr>) ?items"
    using t o v by simp
  moreover have "format (?st\<lparr>currentAlign := ALIGN_LEFT\<rparr>) ?items = Inr [0x48, 0x69]"
    by (simp add: formatter_eval)
  ultimately have b: "format (?st\<lparr>currentAlign := 7\<rparr>) ?items = Inr [0x48, 0x69]" by simp
  have c: "format (?st\<lparr>currentAlign := ALIGN_CENTER\<rparr>) ?items
     = Inr [0x20, 0x20, 0x20, 0x20, 0x48, 0x69]"
    by (simp add: formatter_eval replicate_numeral)
  show ?thesis using a b c by blast
qed

lemma getTextWidth_loop_sum:
  "getTextWidth_loop s w = w + sum_list (map (\<lambda>c. if isCJK c then 2 else 1) s)"
  by (induction s arbitrary: w) simp_all

lemmas tokenizer_run_eval = parseTextData_def parseTextData_loop.simps parseTextData_end_def
  isNewLine_def isPrintableChar_def createTextItem_def

text \<open>
  Claim C9. The display width of a line counts 2 for each character in the ranges
  U+4E00 to U+9FFF and U+FF00 to U+FFEF and 1 for any other. Under centre alignment a
  line whose text does not start with a space is finalized as its decorated text behind
  floor((lineWidth - width) / 2) spaces, no space when that is negative, where the width
  is that of the decorated text. Concretely, when the bytes of "Hi" decode to "Hi", the
  items of ESC a 1 followed by "Hi", formatted with line width 10, give the single line
  of 4 spaces followed by "Hi".
\<close>

theorem centre_alignment_by_display_width:
  "getTextWidth s = sum_list (map (\<lambda>c. if isCJK c then 2 else 1) s) \<and>
   (currentAlign st = ALIGN_CENTER \<and> \<not> startsWithSpace txt' \<longrightarrow>
      formatLine st txt'
        = spaces (nat ((lineWidth st - int (getTextWidth (applyTextStyles st txt'))) div 2))
          @ applyTextStyles st txt') \<and>
   (decodeText dec [0x48, 0x69] enc = [0x48, 0x69] \<longrightarrow>
      (\<exists>st'. processItems (TextFormatter (Some 10))
                (parseBuffer dec [0x1b, 0x61, 0x01, 0x48, 0x69] enc) = Inr st' \<and>
             lines (finalizeLine st') = [[0x20, 0x20, 0x20, 0x20, 0x48, 0x69]]) \<and>
      formatAsText (parseBuffer dec [0x1b, 0x61, 0x01, 0x48, 0x69] enc) (Some 10)
        = Inr [0x20, 0x20, 0x20, 0x20, 0x48, 0x69])"
proof (intro conjI impI)
  show "getTextWidth s = sum_list (map (\<lambda>c. if isCJK c then 2 else 1) s)"
    by (simp add: getTextWidth_def getTextWidth_loop_sum)
next
  assume "currentAlign st = ALIGN_CENTER \<and> \<not> startsWithSpace txt'"
  then show "formatLine st txt'
        = spaces (nat ((lineWidth st - int (getTextWidth (applyTextStyles st txt'))) div 2))
          @ applyTextStyles st txt'"
    by (simp add: formatLine_def applyAlignment_def Let_def nat_max_0)
next
  assume d: "decodeText dec [0x48, 0x69] enc = [0x48, 0x69]"
  have p: "\<exists>d1 d2. parseBuffer dec [0x1b, 0x61, 0x01, 0x48, 0x69] enc
      = [CommandItem ''ALIGN'' (Some 1) None None d1,
         TextItem [0x48, 0x69] [0x48, 0x69] [0x48, 0x69] enc d2]"
    using d by (simp add: tokenizer_eval tokenizer_run_eval)
  then obtain d1 d2 where p: "parseBuffer dec [0x1b, 0x61, 0x01, 0x48, 0x69] enc
      = [CommandItem ''ALIGN'' (Some 1) None None d1,
         TextItem [0x48, 0x69] [0x48, 0x69] [0x48, 0x69] enc d2]" by blast
  show "\<exists>st'. processItems (TextFormatter (Some 10))
                (parseBuffer dec [0x1b, 0x61, 0x01, 0x48, 0x69] enc) = Inr st' \<and>
             lines (finalizeLine st') = [[0x20, 0x20, 0x20, 0x20, 0x48, 0x69]]"
    unfolding p by (simp add: formatter_eval replicate_numeral)
  show "formatAsText (parseBuffer dec [0x1b, 0x61, 0x01, 0x48, 0x69] enc) (Some 10)
        = Inr [0x20, 0x20, 0x20, 0x20, 0x48, 0x69]"
    unfolding p by (simp add: formatter_eval replicate_numeral)
qed

theorem centre_alignment_by_display_width_witness:
  "getTextWidth [0x4E2D, 0x41] = 3 \<and>
   formatLine ((TextFormatter (Some 10))\<lparr>currentAlign := ALIGN_CENTER\<rparr>) [0x4E2D, 0x41]
     = [0x20, 0x20, 0x20, 0x4E2D, 0x41] \<and>
   decodeText asciiDecoder [0x48, 0x69] ''utf8'' = [0x48, 0x69] \<and>
   formatAsText (parseBuffer asciiDecoder [0x1b, 0x61, 0x01, 0x48, 0x69] ''utf8'') (Some 10)
     = Inr [0x20, 0x20, 0x20, 0x20, 0x48, 0x69]"
proof -
  let ?st = "(TextFormatter (Some 10))\<lparr>currentAlign := ALIGN_CENTER\<rparr>"
  note t = centre_alignment_by_display_width
  have w: "getTextWidth [0x4E2D, 0x41] = 3"
    using t [of "[0x4E2D, 0x41]"] by (simp add: isCJK_def)
  have h: "currentAlign ?st = ALIGN_CENTER \<and> \<not> startsWithSpace [0x4E2D, 0x41]"
    by (simp add: startsWithSpace_def)
  have s: "applyTextStyles ?st [0x4E2D, 0x41] = [0x4E2D, 0x41]" "lineWidth ?st = 10"
    by (simp_all add: applyTextStyles_def TextFormatter_def)
  have "formatLine ?st [0x4E2D, 0x41]
        = spaces (nat ((lineWidth ?st - int (getTextWidth (applyTextStyles ?st [0x4E2D, 0x41]))) div 2))
          @ applyTextStyles ?st [0x4E2D, 0x41]"
    using t [of _ ?st "[0x4E2D, 0x41]"] h by blast
  then have f: "formatLine ?st [0x4E2D, 0x41] = [0x20, 0x20, 0x20, 0x4E2D, 0x41]"
    unfolding s w by (simp add: spaces_def replicate_numeral)
  have d: "decodeText asciiDecoder [0x48, 0x69] ''utf8'' = [0x48, 0x69]"
    by (simp add: decodeText_def asciiDecoder_def)
  have g: "formatAsText (parseBuffer asciiDecoder [0x1b, 0x61, 0x01, 0x48, 0x69] ''utf8'') (Some 10)
     = Inr [0x20, 0x20, 0x20, 0x20, 0x48, 0x69]"
    using t [of _ _ _ asciiDecoder "''utf8''"] d by blast
  show ?thesis using w f d g by blast
qed

end
